theory Spec2Isabelle
  imports Complex_Main "HOL-Library.Finite_Map"
begin

section \<open>Feed references and errors\<close>

text \<open>
  A feed reference is an identity: an algorithm tag and the key bytes.  The reference
  library (string form, parsing, TFK encoding) is a separate module; its functions are
  parameters of the model (record \<open>env\<close> below).
\<close>

datatype FeedRef = FeedRef (algo: string) (ident: string)

text \<open>
  Go's \<open>error\<close> values.  A type assertion such as \<open>err.(*ErrNoSuchFrom)\<close> looks at the
  dynamic type, so the pointer and the value form of \<open>ErrNoSuchFrom\<close> (both implement
  \<open>error\<close>, the method has a value receiver) are different constructors.
  \<open>ErrOutOfReach d m\<close> is \<open>&ssb.ErrOutOfReach{Dist: d, Max: m}\<close>; \<open>Wrap e msg\<close> is
  \<open>errors.Wrap(e, msg)\<close> as well as \<open>fmt.Errorf(msg ++ ": %w", e)\<close>; \<open>ErrNotExist\<close> is
  the one error on which \<open>os.IsNotExist\<close> answers true; \<open>OtherError\<close> stands for
  every error value produced outside the modelled code.
\<close>

datatype error =
    ErrNoSuchFrom_ptr FeedRef
  | ErrNoSuchFrom_val FeedRef
  | ErrOutOfReach int int
  | ErrNotExist
  | OtherError string
  | Wrap error string

section \<open>The authorizer\<close>

subsection \<open>float64 distances\<close>

text \<open>
  \<open>Lookup.Dist\<close> returns a \<open>float64\<close>.  The finite values are embedded in the reals;
  the two infinities and NaN are separate values.
\<close>

datatype float64 = Finite real | PosInf | NegInf | NaN

text \<open>\<open>math.IsInf(f, sign)\<close>: \<open>sign > 0\<close> asks for +Inf, \<open>sign < 0\<close> for -Inf, \<open>0\<close> for either.\<close>

definition IsInf :: "float64 \<Rightarrow> int \<Rightarrow> bool" where
  "IsInf f sign = ((sign \<ge> 0 \<and> f = PosInf) \<or> (sign \<le> 0 \<and> f = NegInf))"


text \<open>
  The conversion \<open>int(d)\<close> of a \<open>float64\<close> discards the fraction (truncation towards
  zero).  Where the truncated value is not representable in a 64-bit \<open>int\<close> (also for
  the infinities and NaN) the conversion succeeds with an implementation-dependent
  result: that result is the parameter \<open>impl\<close>.
\<close>

definition trunc_to_zero :: "real \<Rightarrow> int" where
  "trunc_to_zero r = (if 0 \<le> r then \<lfloor>r\<rfloor> else \<lceil>r\<rceil>)"

definition int_of_float64 :: "(float64 \<Rightarrow> int) \<Rightarrow> float64 \<Rightarrow> int" where
  "int_of_float64 impl d =
     (case d of
        Finite r \<Rightarrow>
          (if - (2 ^ 63) \<le> trunc_to_zero r \<and> trunc_to_zero r < 2 ^ 63 then trunc_to_zero r else impl d)
      | _ \<Rightarrow> impl d)"

subsection \<open>The trust graph as the authorizer sees it\<close>

text \<open>
  The graph package itself (\<open>Graph\<close>, \<open>Lookup\<close>, the builder) is not among the sources.
  A graph snapshot is its node table together with the answers of the methods that
  \<open>Authorize\<close> calls: \<open>follows\<close> for \<open>fg.Follows\<close>, and \<open>dijkstra\<close> for the shortest-path
  construction from an origin that is a node.  A lookup answers \<open>Dist(to)\<close> with the
  path and the distance.
\<close>

type_synonym Lookup = "FeedRef \<Rightarrow> FeedRef list \<times> float64"

record Graph =
  nodes :: "FeedRef list"
  follows :: "FeedRef \<Rightarrow> FeedRef \<Rightarrow> bool"
  dijkstra :: "FeedRef \<Rightarrow> error + Lookup"

definition Nodes :: "Graph \<Rightarrow> nat" where
  "Nodes fg = length (nodes fg)"

definition Follows :: "Graph \<Rightarrow> FeedRef \<Rightarrow> FeedRef \<Rightarrow> bool" where
  "Follows fg a b = follows fg a b"

text \<open>
  Modelled from the spec: \<open>Graph.MakeDijkstra\<close> is missing from the sources.  The spec
  says \<open>If from is not a node in the graph, return NoSuchFrom\<close>; the error is the
  pointer form, the one \<open>Authorize\<close> asserts on.  For an origin in the graph the
  result is the snapshot's \<open>dijkstra\<close> answer.
\<close>

definition MakeDijkstra :: "Graph \<Rightarrow> FeedRef \<Rightarrow> error + Lookup" where
  "MakeDijkstra fg origin =
     (if origin \<notin> set (nodes fg) then Inl (ErrNoSuchFrom_ptr origin) else dijkstra fg origin)"

definition Dist :: "Lookup \<Rightarrow> FeedRef \<Rightarrow> FeedRef list \<times> float64" where
  "Dist l to = l to"

subsection \<open>Authorize\<close>

text \<open>
  The authorizer holds the builder, the origin and the hop bound.  \<open>Build\<close> is the
  outcome of \<open>a.b.Build()\<close>.  The logger's lines are returned with the verdict;
  \<open>None\<close> is Go's \<open>nil\<close> error (admit).
\<close>

datatype log_line =
    LogAuthBypass
  | LogFollowing
  | LogDist float64 "FeedRef list"

record authorizer =
  Build :: "error + Graph"
  a_from :: FeedRef
  maxHops :: int

definition Authorize ::
  "(float64 \<Rightarrow> int) \<Rightarrow> authorizer \<Rightarrow> FeedRef \<Rightarrow> error option \<times> log_line list" where
  "Authorize impl a to =
     (case Build a of
        Inl err \<Rightarrow> (Some (Wrap err ''graph/Authorize: failed to make friendgraph''), [])
      | Inr fg \<Rightarrow>
          if Nodes fg = 0 then (None, [LogAuthBypass])
          else if Follows fg (a_from a) to then (None, [LogFollowing])
          else
            (case MakeDijkstra fg (a_from a) of
               Inl err \<Rightarrow>
                 (case err of
                    ErrNoSuchFrom_ptr _ \<Rightarrow> (None, [])
                  | _ \<Rightarrow> (Some (Wrap err ''graph/Authorize: failed to construct dijkstra''), []))
             | Inr distLookup \<Rightarrow>
                 (case Dist distLookup to of
                    (p, d) \<Rightarrow>
                      if IsInf d (- 1) \<or> IsInf d 1 \<or> int_of_float64 impl d > maxHops a
                      then (Some (ErrOutOfReach (int_of_float64 impl d) (maxHops a)), [LogDist d p])
                      else (None, [LogDist d p]))))"

section \<open>The state matrix\<close>

subsection \<open>Notes, frontiers, and the world outside\<close>

text \<open>
  \<open>ssb.Note\<close>: the sequence number is an \<open>int64\<close>; the store only copies and compares
  it, so it is an integer here.  \<open>ObservedFeed\<close> embeds the note and adds the feed, as
  the Go struct does; \<open>Note.truncate\<close> reads the embedded note back.
\<close>

record Note =
  Seq :: int
  Replicate :: bool
  Receive :: bool

record ObservedFeed = Note +
  Feed :: FeedRef

text \<open>The zero value of \<open>ssb.Note\<close>, what a Go map lookup yields for a missing key.\<close>

definition zero_Note :: Note where
  "zero_Note = \<lparr>Seq = 0, Replicate = False, Receive = False\<rparr>"

text \<open>
  A frontier is a Go map from the feed's string form to its note.  In the first
  listing of the store \<open>ssb.NetworkFrontier\<close> is that map type; in the second listing
  it is a struct whose field \<open>Frontier\<close> is that map, so copying the struct still shares
  the map.  Either way a frontier value is a reference to a map object: the objects
  live in \<open>heap\<close>, and \<open>fresh\<close> is the next unused reference.
\<close>

type_synonym NetworkFrontier = "(string, Note) fmap"

text \<open>
  Everything the store calls but does not define.  The reference library: \<open>String\<close>,
  \<open>ParseFeedRef\<close>, \<open>tfk.Encode\<close>.  The standard library: \<open>%x\<close> formatting,
  \<open>filepath.Join\<close>, the JSON encoder and decoder for frontiers (with the note's own
  marshalling, which is not among the sources), and the faults the operating system may
  answer with.  A write fault carries the number of bytes that still reached the file.
  \<open>range_order\<close> is the order in which a \<open>range\<close> loop visits the entries of a map: Go
  leaves it unspecified.
\<close>

record env =
  ref_String :: "FeedRef \<Rightarrow> string"
  ParseFeedRef :: "string \<Rightarrow> error + FeedRef"
  tfk_Encode :: "FeedRef \<Rightarrow> error + string"
  hex :: "string \<Rightarrow> string"
  filepath_Join :: "string \<Rightarrow> string \<Rightarrow> string"
  json_Encode :: "NetworkFrontier \<Rightarrow> error + string"
  json_Decode :: "string \<Rightarrow> error + NetworkFrontier"
  Open_fault :: "string \<Rightarrow> error option"
  OpenFile_fault :: "string \<Rightarrow> error option"
  Write_fault :: "string \<Rightarrow> string \<Rightarrow> (error \<times> nat) option"
  Close_fault :: "string \<Rightarrow> error option"
  Rename_fault :: "string \<Rightarrow> string \<Rightarrow> error option"
  range_order :: "NetworkFrontier \<Rightarrow> (string \<times> Note) list"

text \<open>
  The state matrix with the heap of map objects and the files on disk.  \<open>wantList\<close> is
  the answer of \<open>sm.wantList.ReplicationList().List()\<close> and \<open>GetSink\<close> the sequence of
  the sink that \<open>sm.verify.GetSink\<close> returns (the first listing's dependencies).  The
  mutex is not modelled: every public method runs under it from start to end.
\<close>

record StateMatrix =
  basePath :: string
  self :: string
  open_cache :: "string \<rightharpoonup> nat"
  wantList :: "error + FeedRef list"
  GetSink :: "FeedRef \<Rightarrow> error + int"
  heap :: "nat \<Rightarrow> NetworkFrontier"
  fresh :: nat
  files :: "string \<rightharpoonup> string"

text \<open>\<open>make(ssb.NetworkFrontier)\<close> and \<open>ssb.NewNetworkFrontier()\<close>: a new, empty map object.\<close>

definition make_frontier :: "StateMatrix \<Rightarrow> nat \<times> StateMatrix" where
  "make_frontier sm = (fresh sm, sm\<lparr>heap := (heap sm)(fresh sm := fmempty), fresh := Suc (fresh sm)\<rparr>)"

text \<open>\<open>m[k] = v\<close> and \<open>delete(m, k)\<close> on the map object behind a reference.\<close>

definition map_store :: "nat \<Rightarrow> string \<Rightarrow> Note \<Rightarrow> StateMatrix \<Rightarrow> StateMatrix" where
  "map_store r k v sm = sm\<lparr>heap := (heap sm)(r := fmupd k v (heap sm r))\<rparr>"

definition map_delete :: "nat \<Rightarrow> string \<Rightarrow> StateMatrix \<Rightarrow> StateMatrix" where
  "map_delete r k sm = sm\<lparr>heap := (heap sm)(r := fmdrop k (heap sm r))\<rparr>"

subsection \<open>Files\<close>

definition IsNotExist :: "error \<Rightarrow> bool" where
  "IsNotExist err = (err = ErrNotExist)"

text \<open>\<open>os.Open\<close>, read together with the decoder's reading of the whole file.\<close>

definition os_Open :: "env \<Rightarrow> StateMatrix \<Rightarrow> string \<Rightarrow> error + string" where
  "os_Open e sm name =
     (case Open_fault e name of
        Some err \<Rightarrow> Inl err
      | None \<Rightarrow> (case files sm name of None \<Rightarrow> Inl ErrNotExist | Some content \<Rightarrow> Inr content))"

text \<open>\<open>os.OpenFile(name, O_TRUNC|O_WRONLY|O_CREATE, 0700)\<close>: the file exists and is empty afterwards.\<close>

definition os_OpenFile :: "env \<Rightarrow> string \<Rightarrow> StateMatrix \<Rightarrow> error + StateMatrix" where
  "os_OpenFile e name sm =
     (case OpenFile_fault e name of
        Some err \<Rightarrow> Inl err
      | None \<Rightarrow> Inr (sm\<lparr>files := (files sm)(name \<mapsto> [])\<rparr>))"

text \<open>Writing to the freshly truncated file; on a fault a prefix may have been written.\<close>

definition os_Write :: "env \<Rightarrow> string \<Rightarrow> string \<Rightarrow> StateMatrix \<Rightarrow> error option \<times> StateMatrix" where
  "os_Write e name content sm =
     (case Write_fault e name content of
        Some (err, n) \<Rightarrow> (Some err, sm\<lparr>files := (files sm)(name \<mapsto> take n content)\<rparr>)
      | None \<Rightarrow> (None, sm\<lparr>files := (files sm)(name \<mapsto> content)\<rparr>))"

definition os_Rename :: "env \<Rightarrow> string \<Rightarrow> string \<Rightarrow> StateMatrix \<Rightarrow> error + StateMatrix" where
  "os_Rename e old new sm =
     (case Rename_fault e old new of
        Some err \<Rightarrow> Inl err
      | None \<Rightarrow>
          (case files sm old of
             None \<Rightarrow> Inl ErrNotExist
           | Some content \<Rightarrow> Inr (sm\<lparr>files := ((files sm)(old := None))(new \<mapsto> content)\<rparr>)))"

subsection \<open>Loading and saving (both listings)\<close>

definition StateFileName :: "env \<Rightarrow> StateMatrix \<Rightarrow> FeedRef \<Rightarrow> error + string" where
  "StateFileName e sm peer =
     (case tfk_Encode e peer of
        Inl err \<Rightarrow> Inl err
      | Inr peerTfk \<Rightarrow> Inr (filepath_Join e (basePath sm) (hex e peerTfk)))"

text \<open>
  \<open>loadFrontier\<close>, first listing (lines 82-114).  The result is the reference of the
  peer's map: the very object that the cache holds.
\<close>

definition loadFrontier :: "env \<Rightarrow> FeedRef \<Rightarrow> StateMatrix \<Rightarrow> (error + nat) \<times> StateMatrix" where
  "loadFrontier e peer sm =
     (case open_cache sm (ref_String e peer) of
        Some cur \<Rightarrow> (Inr cur, sm)
      | None \<Rightarrow>
          (case StateFileName e sm peer of
             Inl err \<Rightarrow> (Inl err, sm)
           | Inr peerFileName \<Rightarrow>
               (case os_Open e sm peerFileName of
                  Inl err \<Rightarrow>
                    if \<not> IsNotExist err then (Inl err, sm)
                    else
                      (case make_frontier sm of
                         (cur, sm1) \<Rightarrow>
                           (Inr cur, sm1\<lparr>open_cache := (open_cache sm1)(ref_String e peer \<mapsto> cur)\<rparr>))
                | Inr content \<Rightarrow>
                    (case make_frontier sm of
                       (cur, sm1) \<Rightarrow>
                         (case json_Decode e content of
                            Inl err \<Rightarrow> (Inl err, sm1)
                          | Inr decoded \<Rightarrow>
                              (Inr cur,
                               sm1\<lparr>heap := (heap sm1)(cur := decoded),
                                   open_cache := (open_cache sm1)(ref_String e peer \<mapsto> cur)\<rparr>))))))"

text \<open>\<open>loadFrontier\<close>, second listing (lines 415-446): the decode error is wrapped.\<close>

definition loadFrontier_2 :: "env \<Rightarrow> FeedRef \<Rightarrow> StateMatrix \<Rightarrow> (error + nat) \<times> StateMatrix" where
  "loadFrontier_2 e peer sm =
     (case open_cache sm (ref_String e peer) of
        Some cur \<Rightarrow> (Inr cur, sm)
      | None \<Rightarrow>
          (case StateFileName e sm peer of
             Inl err \<Rightarrow> (Inl err, sm)
           | Inr peerFileName \<Rightarrow>
               (case os_Open e sm peerFileName of
                  Inl err \<Rightarrow>
                    if \<not> IsNotExist err then (Inl err, sm)
                    else
                      (case make_frontier sm of
                         (cur, sm1) \<Rightarrow>
                           (Inr cur, sm1\<lparr>open_cache := (open_cache sm1)(ref_String e peer \<mapsto> cur)\<rparr>))
                | Inr content \<Rightarrow>
                    (case make_frontier sm of
                       (cur, sm1) \<Rightarrow>
                         (case json_Decode e content of
                            Inl err \<Rightarrow> (Inl (Wrap err ''state json decode failed''), sm1)
                          | Inr decoded \<Rightarrow>
                              (Inr cur,
                               sm1\<lparr>heap := (heap sm1)(cur := decoded),
                                   open_cache := (open_cache sm1)(ref_String e peer \<mapsto> cur)\<rparr>))))))"

definition Inspect :: "env \<Rightarrow> FeedRef \<Rightarrow> StateMatrix \<Rightarrow> (error + nat) \<times> StateMatrix" where
  "Inspect e peer sm = loadFrontier e peer sm"

definition Inspect_2 :: "env \<Rightarrow> FeedRef \<Rightarrow> StateMatrix \<Rightarrow> (error + nat) \<times> StateMatrix" where
  "Inspect_2 e peer sm = loadFrontier_2 e peer sm"

text \<open>
  \<open>save\<close> (lines 137-171 and 469-503; the two listings differ only in \<open>nf\<close> against
  \<open>nf.Frontier\<close>, the same map object).  The encoder marshals first and then writes the
  bytes to the \<open>.new\<close> file.
\<close>

definition save :: "env \<Rightarrow> FeedRef \<Rightarrow> StateMatrix \<Rightarrow> error option \<times> StateMatrix" where
  "save e peer sm =
     (case StateFileName e sm peer of
        Inl err \<Rightarrow> (Some err, sm)
      | Inr peerFileName \<Rightarrow>
          (let newPeerFileName = peerFileName @ ''.new'' in
           case os_OpenFile e newPeerFileName sm of
             Inl err \<Rightarrow> (Some err, sm)
           | Inr sm1 \<Rightarrow>
               (case open_cache sm1 (ref_String e peer) of
                  None \<Rightarrow> (None, sm1)
                | Some nf \<Rightarrow>
                    (case json_Encode e (heap sm1 nf) of
                       Inl err \<Rightarrow> (Some err, sm1)
                     | Inr bytes \<Rightarrow>
                         (case os_Write e newPeerFileName bytes sm1 of
                            (Some err, sm2) \<Rightarrow> (Some err, sm2)
                          | (None, sm2) \<Rightarrow>
                              (case Close_fault e newPeerFileName of
                                 Some err \<Rightarrow> (Some err, sm2)
                               | None \<Rightarrow>
                                   (case os_Rename e newPeerFileName peerFileName sm2 of
                                      Inl err \<Rightarrow>
                                        (Some (Wrap err (''failed to replace '' @ peerFileName
                                                          @ '' with '' @ newPeerFileName)), sm2)
                                    | Inr sm3 \<Rightarrow> (None, sm3))))))))"

definition saveAndClose :: "env \<Rightarrow> string \<Rightarrow> StateMatrix \<Rightarrow> error option \<times> StateMatrix" where
  "saveAndClose e peer sm =
     (case ParseFeedRef e peer of
        Inl err \<Rightarrow> (Some err, sm)
      | Inr parsed \<Rightarrow>
          (case save e parsed sm of
             (Some err, sm1) \<Rightarrow> (Some err, sm1)
           | (None, sm1) \<Rightarrow> (None, sm1\<lparr>open_cache := (open_cache sm1)(peer := None)\<rparr>)))"

definition SaveAndClose :: "env \<Rightarrow> FeedRef \<Rightarrow> StateMatrix \<Rightarrow> error option \<times> StateMatrix" where
  "SaveAndClose e peer sm = saveAndClose e (ref_String e peer) sm"

subsection \<open>Changed, Update and Fill\<close>

text \<open>
  The loop \<open>for k, v := range src { dst[k] = v }\<close> over the entries of \<open>src\<close> in the
  order the \<open>range\<close> visits them; \<open>dst\<close> is the reference of the map written to.
\<close>

fun range_store :: "nat \<Rightarrow> (string \<times> Note) list \<Rightarrow> StateMatrix \<Rightarrow> StateMatrix" where
  "range_store dst [] sm = sm"
| "range_store dst ((k, v) # rest) sm = range_store dst rest (map_store dst k v sm)"

text \<open>\<open>loadLocalFrontier\<close> (lines 311-333): one note per feed of the replication list.\<close>

fun loadLocalFrontier_loop ::
  "env \<Rightarrow> nat \<Rightarrow> FeedRef list \<Rightarrow> StateMatrix \<Rightarrow> error option \<times> StateMatrix" where
  "loadLocalFrontier_loop e frontier [] sm = (None, sm)"
| "loadLocalFrontier_loop e frontier (ref # rest) sm =
     (case GetSink sm ref of
        Inl err \<Rightarrow> (Some (Wrap err ''failed to get verification sink''), sm)
      | Inr sink_Seq \<Rightarrow>
          loadLocalFrontier_loop e frontier rest
            (map_store frontier (ref_String e ref)
               \<lparr>Seq = sink_Seq, Replicate = True, Receive = True\<rparr> sm))"

definition loadLocalFrontier :: "env \<Rightarrow> StateMatrix \<Rightarrow> (error + nat) \<times> StateMatrix" where
  "loadLocalFrontier e sm =
     (case wantList sm of
        Inl err \<Rightarrow> (Inl (Wrap err ''replication list error''), sm)
      | Inr list \<Rightarrow>
          (case make_frontier sm of
             (frontier, sm1) \<Rightarrow>
               (case loadLocalFrontier_loop e frontier list sm1 of
                  (Some err, sm2) \<Rightarrow> (Inl err, sm2)
                | (None, sm2) \<Rightarrow> (Inr frontier, sm2))))"

text \<open>\<open>Changed\<close>, first listing (lines 229-244): neither \<open>self\<close> nor \<open>peer\<close> is read.\<close>

definition Changed ::
  "env \<Rightarrow> FeedRef \<Rightarrow> FeedRef \<Rightarrow> StateMatrix \<Rightarrow> (error + nat) \<times> StateMatrix" where
  "Changed e slf peer sm =
     (case loadLocalFrontier e sm of
        (Inl err, sm1) \<Rightarrow> (Inl err, sm1)
      | (Inr selfNf, sm1) \<Rightarrow>
          (case make_frontier sm1 of
             (relevant, sm2) \<Rightarrow>
               (Inr relevant, range_store relevant (range_order e (heap sm2 selfNf)) sm2)))"

text \<open>
  \<open>Changed\<close>, second listing (lines 604-643).  The loop body with its three
  \<open>continue\<close>s; a missing entry of the peer's map reads as the zero note.
\<close>

fun Changed_loop ::
  "string \<Rightarrow> nat \<Rightarrow> nat \<Rightarrow> (string \<times> Note) list \<Rightarrow> StateMatrix \<Rightarrow> StateMatrix" where
  "Changed_loop peer_String peerNf relevant [] sm = sm"
| "Changed_loop peer_String peerNf relevant ((wantedFeed, myNote) # rest) sm =
     (let has = (fmlookup (heap sm peerNf) wantedFeed \<noteq> None);
          theirNote = (case fmlookup (heap sm peerNf) wantedFeed of
                         Some n \<Rightarrow> n | None \<Rightarrow> zero_Note)
      in if \<not> has \<and> Receive myNote
         then Changed_loop peer_String peerNf relevant rest (map_store relevant wantedFeed myNote sm)
         else if \<not> Replicate theirNote
         then Changed_loop peer_String peerNf relevant rest sm
         else if \<not> Receive theirNote \<and> wantedFeed \<noteq> peer_String
         then Changed_loop peer_String peerNf relevant rest sm
         else Changed_loop peer_String peerNf relevant rest (map_store relevant wantedFeed myNote sm))"

definition Changed_2 ::
  "env \<Rightarrow> FeedRef \<Rightarrow> FeedRef \<Rightarrow> StateMatrix \<Rightarrow> (error + nat) \<times> StateMatrix" where
  "Changed_2 e slf peer sm =
     (case loadFrontier_2 e slf sm of
        (Inl err, sm1) \<Rightarrow> (Inl err, sm1)
      | (Inr selfNf, sm1) \<Rightarrow>
          (case loadFrontier_2 e peer sm1 of
             (Inl err, sm2) \<Rightarrow> (Inl err, sm2)
           | (Inr peerNf, sm2) \<Rightarrow>
               (case make_frontier sm2 of
                  (relevant, sm3) \<Rightarrow>
                    (Inr relevant,
                     Changed_loop (ref_String e peer) peerNf relevant
                       (range_order e (heap sm3 selfNf)) sm3))))"

text \<open>
  \<open>Update\<close>, first listing (lines 252-275): the patch is written over the cached map,
  then every entry is copied into a new map, which is returned.  The patch is the
  caller's map as it is at the call.
\<close>

definition Update ::
  "env \<Rightarrow> FeedRef \<Rightarrow> NetworkFrontier \<Rightarrow> StateMatrix \<Rightarrow> (error + nat) \<times> StateMatrix" where
  "Update e who update sm =
     (case loadFrontier e who sm of
        (Inl err, sm1) \<Rightarrow> (Inl err, sm1)
      | (Inr current, sm1) \<Rightarrow>
          (let sm2 = range_store current (range_order e update) sm1;
               sm3 = sm2\<lparr>open_cache := (open_cache sm2)(ref_String e who \<mapsto> current)\<rparr>
           in case make_frontier sm3 of
                (result, sm4) \<Rightarrow>
                  (Inr result, range_store result (range_order e (heap sm4 current)) sm4)))"

text \<open>\<open>Update\<close>, second listing (lines 651-669): \<open>current\<close> itself is returned.\<close>

definition Update_2 ::
  "env \<Rightarrow> FeedRef \<Rightarrow> NetworkFrontier \<Rightarrow> StateMatrix \<Rightarrow> (error + nat) \<times> StateMatrix" where
  "Update_2 e who update sm =
     (case loadFrontier_2 e who sm of
        (Inl err, sm1) \<Rightarrow> (Inl err, sm1)
      | (Inr current, sm1) \<Rightarrow>
          (let sm2 = range_store current (range_order e update) sm1;
               sm3 = sm2\<lparr>open_cache := (open_cache sm2)(ref_String e who \<mapsto> current)\<rparr>
           in (Inr current, sm3)))"

text \<open>The loop of \<open>Fill\<close> over the observed feeds, the same in both listings.\<close>

fun Fill_loop :: "env \<Rightarrow> nat \<Rightarrow> ObservedFeed list \<Rightarrow> StateMatrix \<Rightarrow> StateMatrix" where
  "Fill_loop e nf [] sm = sm"
| "Fill_loop e nf (updatedFeed # rest) sm =
     (if Replicate updatedFeed
      then Fill_loop e nf rest
             (map_store nf (ref_String e (Feed updatedFeed)) (Note.truncate updatedFeed) sm)
      else Fill_loop e nf rest (map_delete nf (ref_String e (Feed updatedFeed)) sm))"

text \<open>\<open>Fill\<close>, first listing (lines 277-298).\<close>

definition Fill :: "env \<Rightarrow> FeedRef \<Rightarrow> ObservedFeed list \<Rightarrow> StateMatrix \<Rightarrow> error option \<times> StateMatrix" where
  "Fill e who feeds sm =
     (case loadFrontier e who sm of
        (Inl err, sm1) \<Rightarrow> (Some err, sm1)
      | (Inr nf, sm1) \<Rightarrow>
          (let sm2 = Fill_loop e nf feeds sm1
           in (None, sm2\<lparr>open_cache := (open_cache sm2)(ref_String e who \<mapsto> nf)\<rparr>)))"

text \<open>\<open>Fill\<close>, second listing (lines 671-696): nothing at all happens for an empty list.\<close>

definition Fill_2 :: "env \<Rightarrow> FeedRef \<Rightarrow> ObservedFeed list \<Rightarrow> StateMatrix \<Rightarrow> error option \<times> StateMatrix" where
  "Fill_2 e who feeds sm =
     (if length feeds = 0 then (None, sm)
      else
        (case loadFrontier_2 e who sm of
           (Inl err, sm1) \<Rightarrow> (Some err, sm1)
         | (Inr nf, sm1) \<Rightarrow>
             (let sm2 = Fill_loop e nf feeds sm1
              in (None, sm2\<lparr>open_cache := (open_cache sm2)(ref_String e who \<mapsto> nf)\<rparr>))))"

subsection \<open>Reading the state\<close>

text \<open>
  The heap is well formed when every reference held by the cache has been allocated.
  The state of \<open>New\<close> (an empty cache) is well formed, and every method keeps it so:
  references only come from \<open>make_frontier\<close>.
\<close>

definition wf_sm :: "StateMatrix \<Rightarrow> bool" where
  "wf_sm sm = (\<forall>k r. open_cache sm k = Some r \<longrightarrow> r < fresh sm)"

text \<open>
  What Go promises of a \<open>range\<close> over a map that the loop body does not change: every
  entry is visited, and none twice.
\<close>

definition range_ok :: "env \<Rightarrow> NetworkFrontier \<Rightarrow> bool" where
  "range_ok e m = (distinct (map fst (range_order e m)) \<and> fmap_of_list (range_order e m) = m)"

text \<open>
  The note that the state matrix holds for \<open>peer\<close> and the feed with string form \<open>F\<close>:
  the entry of the map that the cache holds for the peer, if there is one.
\<close>

definition recorded :: "env \<Rightarrow> FeedRef \<Rightarrow> string \<Rightarrow> StateMatrix \<Rightarrow> Note option" where
  "recorded e peer F sm =
     (case open_cache sm (ref_String e peer) of
        None \<Rightarrow> None
      | Some nf \<Rightarrow> fmlookup (heap sm nf) F)"

text \<open>
  The note that \<open>loadLocalFrontier\<close> writes for a feed of the replication list.
\<close>

definition local_note :: "StateMatrix \<Rightarrow> FeedRef \<Rightarrow> Note" where
  "local_note sm ref =
     \<lparr>Seq = (case GetSink sm ref of Inr sink_Seq \<Rightarrow> sink_Seq | Inl err \<Rightarrow> 0),
      Replicate = True, Receive = True\<rparr>"

text \<open>
  The subset that the spec describes for \<open>Changed\<close>, in its words.  A feed \<open>F\<close> of self's
  frontier with self's note \<open>myNote\<close> is advertised to the peer when the peer has no
  entry for \<open>F\<close> and \<open>myNote\<close> has \<open>Receive\<close>; it is not when the peer's note has
  \<open>Replicate = false\<close> (a missing entry counts as one: ``if \<open>replicate=false\<close> the entry
  is equivalent to absence''), nor when the peer's note has \<open>Receive = false\<close> and \<open>F\<close> is
  not the peer's own feed; otherwise it is.
\<close>

definition advertised :: "string \<Rightarrow> NetworkFrontier \<Rightarrow> string \<Rightarrow> Note \<Rightarrow> bool" where
  "advertised peer_String peerNf F myNote =
     (case fmlookup peerNf F of
        None \<Rightarrow> Receive myNote
      | Some theirNote \<Rightarrow> Replicate theirNote \<and> (Receive theirNote \<or> F = peer_String))"

definition Changed_spec :: "string \<Rightarrow> NetworkFrontier \<Rightarrow> NetworkFrontier \<Rightarrow> NetworkFrontier" where
  "Changed_spec peer_String selfNf peerNf =
     fmfilter (\<lambda>F. case fmlookup selfNf F of
                     None \<Rightarrow> False
                   | Some myNote \<Rightarrow> advertised peer_String peerNf F myNote) selfNf"

text \<open>
  The spec's reading of \<open>Fill\<close>, entry by entry.  \<open>last_observed\<close> is the last element of
  the list for the feed with string form \<open>k\<close>; the entry for \<open>k\<close> afterwards is that
  element's note when it has \<open>Replicate\<close>, no entry when it has not, and the entry from
  before when the list does not name the feed.
\<close>

definition last_observed :: "env \<Rightarrow> ObservedFeed list \<Rightarrow> string \<Rightarrow> ObservedFeed option" where
  "last_observed e feeds k = find (\<lambda>observed. ref_String e (Feed observed) = k) (rev feeds)"

definition observed_entry :: "env \<Rightarrow> ObservedFeed list \<Rightarrow> NetworkFrontier \<Rightarrow> string \<Rightarrow> Note option" where
  "observed_entry e feeds before k =
     (case last_observed e feeds k of
        None \<Rightarrow> fmlookup before k
      | Some observed \<Rightarrow> if Replicate observed then Some (Note.truncate observed) else None)"

text \<open>
  Modelled from the spec: a valid frontier is one that the JSON codec of frontiers
  gives back, ``\<open>decode(encode(frontier)) == frontier\<close>''.  The codec (the standard
  encoder and decoder with the note's own marshalling) is not among the sources; it is
  the pair \<open>json_Encode\<close>, \<open>json_Decode\<close> of the environment.
\<close>

definition valid_frontier :: "env \<Rightarrow> NetworkFrontier \<Rightarrow> bool" where
  "valid_frontier e f =
     (case json_Encode e f of
        Inl err \<Rightarrow> False
      | Inr bytes \<Rightarrow> json_Decode e bytes = Inr f)"

section \<open>Example values\<close>

text \<open>
  The spec's two-hop scenario: \<open>A\<close> follows \<open>X\<close>, \<open>X\<close> follows \<open>B\<close>, nothing else; from
  \<open>A\<close> the distance to \<open>B\<close> is 2 and \<open>C\<close> is not in the graph.
\<close>

definition ref_A :: FeedRef where "ref_A = FeedRef ''ed25519'' ''A''"
definition ref_B :: FeedRef where "ref_B = FeedRef ''ed25519'' ''B''"
definition ref_C :: FeedRef where "ref_C = FeedRef ''ed25519'' ''C''"
definition ref_X :: FeedRef where "ref_X = FeedRef ''ed25519'' ''X''"

definition twoHop_lookup :: Lookup where
  "twoHop_lookup to =
     (if to = ref_A then ([ref_A], Finite 0)
      else if to = ref_X then ([ref_A, ref_X], Finite 1)
      else if to = ref_B then ([ref_A, ref_X, ref_B], Finite 2)
      else ([], NegInf))"

definition twoHop :: Graph where
  "twoHop =
     \<lparr>nodes = [ref_A, ref_X, ref_B],
      follows = (\<lambda>a b. (a = ref_A \<and> b = ref_X) \<or> (a = ref_X \<and> b = ref_B)),
      dijkstra = (\<lambda>origin. if origin = ref_A then Inr twoHop_lookup
                            else Inl (OtherError ''not computed''))\<rparr>"

definition emptyGraph :: Graph where
  "emptyGraph = \<lparr>nodes = [], follows = (\<lambda>a b. False),
                 dijkstra = (\<lambda>origin. Inl (OtherError ''not computed''))\<rparr>"

definition amd64_int :: "float64 \<Rightarrow> int" where
  "amd64_int d = - (2 ^ 63)"

text \<open>A graph on \<open>A\<close> and \<open>B\<close> whose lookup answers NaN for \<open>B\<close>.\<close>

definition nan_lookup :: Lookup where
  "nan_lookup to = (if to = ref_A then ([ref_A], Finite 0) else ([], NaN))"

definition nanGraph :: Graph where
  "nanGraph =
     \<lparr>nodes = [ref_A, ref_B],
      follows = (\<lambda>a b. False),
      dijkstra = (\<lambda>origin. Inr nan_lookup)\<rparr>"

text \<open>
  A small world for the state matrix.  Feed references print as \<open>@ident.algo\<close>; the
  file-name encoding knows the algorithm \<open>ed25519\<close> only, so \<open>Z\<close> has no file name.
  The \<open>range\<close> visits the known keys in a fixed order.  The codec of the example knows
  two frontiers and rejects every other text.  Self is \<open>A\<close>; the cache holds the
  frontiers of \<open>A\<close> (map 0) and of \<open>B\<close> (map 1); no file exists; the replication list
  is \<open>A\<close> and \<open>X\<close>.
\<close>

definition ref_Y :: FeedRef where "ref_Y = FeedRef ''ed25519'' ''Y''"
definition ref_Z :: FeedRef where "ref_Z = FeedRef ''unknown'' ''Z''"

definition ex_String :: "FeedRef \<Rightarrow> string" where
  "ex_String r = ''@'' @ ident r @ ''.'' @ algo r"

definition ex_Parse :: "string \<Rightarrow> error + FeedRef" where
  "ex_Parse s =
     (case filter (\<lambda>r. ex_String r = s) [ref_A, ref_B, ref_C, ref_X, ref_Y] of
        r # _ \<Rightarrow> Inr r
      | [] \<Rightarrow> Inl (OtherError ''invalid feed reference''))"

definition ex_keys :: "string list" where
  "ex_keys = [''@A.ed25519'', ''@B.ed25519'', ''@C.ed25519'', ''@X.ed25519'', ''@Y.ed25519'']"

definition ex_range :: "NetworkFrontier \<Rightarrow> (string \<times> Note) list" where
  "ex_range m = List.map_filter (\<lambda>k. map_option (Pair k) (fmlookup m k)) ex_keys"

definition mkNote :: "int \<Rightarrow> bool \<Rightarrow> bool \<Rightarrow> Note" where
  "mkNote s rp rc = \<lparr>Seq = s, Replicate = rp, Receive = rc\<rparr>"

definition ex_patch5 :: NetworkFrontier where
  "ex_patch5 = fmap_of_list [(''@X.ed25519'', mkNote 5 True True)]"

definition ex_env :: env where
  "ex_env =
     \<lparr>ref_String = ex_String,
      ParseFeedRef = ex_Parse,
      tfk_Encode = (\<lambda>r. if algo r = ''ed25519'' then Inr (ident r)
                         else Inl (OtherError ''unhandled format'')),
      hex = (\<lambda>s. s),
      filepath_Join = (\<lambda>dir name. dir @ ''/'' @ name),
      json_Encode = (\<lambda>m. if m = ex_patch5 then Inr ''{@X.ed25519:{seq:5,replicate:true,receive:true}}''
                          else if m = fmempty then Inr ''{}''
                          else Inl (OtherError ''unsupported value'')),
      json_Decode = (\<lambda>s. if s = ''{@X.ed25519:{seq:5,replicate:true,receive:true}}'' then Inr ex_patch5
                          else if s = ''{}'' then Inr fmempty
                          else Inl (OtherError ''invalid character'')),
      Open_fault = (\<lambda>name. None),
      OpenFile_fault = (\<lambda>name. None),
      Write_fault = (\<lambda>name content. None),
      Close_fault = (\<lambda>name. None),
      Rename_fault = (\<lambda>old new. None),
      range_order = ex_range\<rparr>"

definition ex_selfNf :: NetworkFrontier where
  "ex_selfNf = fmap_of_list
     [(''@A.ed25519'', mkNote 7 True True), (''@B.ed25519'', mkNote 2 True True),
      (''@C.ed25519'', mkNote 4 True False), (''@X.ed25519'', mkNote 3 True True),
      (''@Y.ed25519'', mkNote 6 True True)]"

definition ex_peerNf :: NetworkFrontier where
  "ex_peerNf = fmap_of_list
     [(''@B.ed25519'', mkNote 0 True False), (''@X.ed25519'', mkNote 1 False False),
      (''@Y.ed25519'', mkNote 6 True False)]"

definition ex_sm :: StateMatrix where
  "ex_sm =
     \<lparr>basePath = ''/ebt'', self = ''@A.ed25519'',
      open_cache = [''@A.ed25519'' \<mapsto> 0, ''@B.ed25519'' \<mapsto> 1],
      wantList = Inr [ref_A, ref_X],
      GetSink = (\<lambda>r. if r = ref_A then Inr 7 else if r = ref_X then Inr 3
                      else Inl (OtherError ''no sink'')),
      heap = (\<lambda>r. fmempty)(0 := ex_selfNf, 1 := ex_peerNf),
      fresh = 2,
      files = Map.empty\<rparr>"

definition ex_patch3 :: NetworkFrontier where
  "ex_patch3 = fmap_of_list [(''@X.ed25519'', mkNote 3 True True)]"

definition ex_observed :: "ObservedFeed list" where
  "ex_observed =
     [\<lparr>Seq = 9, Replicate = True, Receive = True, Feed = ref_C\<rparr>,
      \<lparr>Seq = - 1, Replicate = False, Receive = False, Feed = ref_X\<rparr>]"

definition ex_observed_X :: "ObservedFeed list" where
  "ex_observed_X = [\<lparr>Seq = 0, Replicate = True, Receive = True, Feed = ref_X\<rparr>]"

definition ex_sm_corrupt :: StateMatrix where
  "ex_sm_corrupt = ex_sm\<lparr>files := [''/ebt/C'' \<mapsto> ''garbage'']\<rparr>"

definition ex_sm_saved :: StateMatrix where
  "ex_sm_saved =
     ex_sm\<lparr>open_cache := (open_cache ex_sm)(''@Y.ed25519'' \<mapsto> 2),
           heap := (heap ex_sm)(2 := ex_patch5), fresh := 3\<rparr>"

definition ex_env_readonly :: env where
  "ex_env_readonly = ex_env\<lparr>OpenFile_fault := (\<lambda>name. Some (OtherError ''permission denied''))\<rparr>"

section \<open>Properties of the authorizer\<close>

lemmas example_graph_defs =
  ref_A_def ref_B_def ref_C_def ref_X_def twoHop_lookup_def twoHop_def emptyGraph_def
  nan_lookup_def nanGraph_def amd64_int_def Nodes_def Follows_def MakeDijkstra_def Dist_def




text \<open>
  On a NaN distance the verdict is the implementation's \<open>int(NaN)\<close> against
  \<open>maxHops\<close>.
\<close>

lemma Authorize_NaN:
  assumes "Build a = Inr fg" and "Nodes fg \<noteq> 0" and "\<not> Follows fg (a_from a) to"
    and "MakeDijkstra fg (a_from a) = Inr lk" and "Dist lk to = (p, NaN)"
  shows "fst (Authorize impl a to) =
           (if impl NaN \<le> maxHops a then None
            else Some (ErrOutOfReach (impl NaN) (maxHops a)))"
  using assms by (auto simp: Authorize_def IsInf_def int_of_float64_def)

text \<open>
  C5, as stated: with a non-empty graph and an origin that is not a node, \<open>Authorize\<close>
  returns the \<open>NoSuchFrom\<close> error.  It does not: on \<open>twoHop\<close> with origin \<open>C\<close> the call
  returns \<open>nil\<close>.
\<close>

theorem Authorize_NoSuchFrom_counterexample:
  "Nodes twoHop \<noteq> 0 \<and> ref_C \<notin> set (nodes twoHop)
   \<and> MakeDijkstra twoHop ref_C = Inl (ErrNoSuchFrom_ptr ref_C)
   \<and> fst (Authorize amd64_int \<lparr>Build = Inr twoHop, a_from = ref_C, maxHops = 2\<rparr> ref_B) = None
   \<and> fst (Authorize amd64_int \<lparr>Build = Inr twoHop, a_from = ref_C, maxHops = 2\<rparr> ref_B)
       \<noteq> Some (ErrNoSuchFrom_ptr ref_C)"
  by (simp add: Authorize_def example_graph_defs)

text \<open>
  C5, amended: with a non-empty graph and an origin that is not a node, \<open>Authorize\<close>
  admits (returns \<open>nil\<close>): the \<open>NoSuchFrom\<close> error of the shortest-path construction
  is swallowed, not returned.
\<close>

theorem Authorize_NoSuchFrom_admits:
  assumes "Build a = Inr fg" and "Nodes fg \<noteq> 0" and "a_from a \<notin> set (nodes fg)"
  shows "fst (Authorize impl a to) = None"
  using assms by (simp add: Authorize_def MakeDijkstra_def)

theorem Authorize_NoSuchFrom_admits_witness:
  "fst (Authorize amd64_int \<lparr>Build = Inr twoHop, a_from = ref_C, maxHops = 0\<rparr> ref_X) = None"
proof -
  have "Nodes twoHop \<noteq> 0" and "ref_C \<notin> set (nodes twoHop)"
    by (simp_all add: example_graph_defs)
  then show ?thesis
    using Authorize_NoSuchFrom_admits
      [of "\<lparr>Build = Inr twoHop, a_from = ref_C, maxHops = 0\<rparr>" twoHop amd64_int ref_X]
    by simp
qed

text \<open>
  C8 (trust on first use): when the graph that was built has zero nodes, \<open>Authorize\<close>
  admits whatever the origin, \<open>to\<close> and the hop bound are, and logs the bypass warning.
\<close>

theorem Authorize_trust_on_first_use:
  assumes "Build a = Inr fg" and "Nodes fg = 0"
  shows "Authorize impl a to = (None, [LogAuthBypass])"
  using assms by (simp add: Authorize_def)

theorem Authorize_trust_on_first_use_witness:
  "Authorize amd64_int \<lparr>Build = Inr emptyGraph, a_from = ref_A, maxHops = 2\<rparr> ref_B
     = (None, [LogAuthBypass])"
proof -
  have "Nodes emptyGraph = 0"
    by (simp add: example_graph_defs)
  then show ?thesis
    using Authorize_trust_on_first_use
      [of "\<lparr>Build = Inr emptyGraph, a_from = ref_A, maxHops = 2\<rparr>" emptyGraph amd64_int ref_B]
    by simp
qed

section \<open>Properties of the state matrix\<close>

subsection \<open>Loading\<close>

text \<open>
  A state matrix with an empty cache, as \<open>New\<close> makes it, is well formed.
\<close>

lemma wf_sm_empty_cache: "open_cache sm = Map.empty \<Longrightarrow> wf_sm sm"
  by (simp add: wf_sm_def)

text \<open>
  The two listings of \<open>loadFrontier\<close> differ in the decode error only.
\<close>

lemma loadFrontier_2_Inr_iff:
  "loadFrontier_2 e peer sm = (Inr r, sm') \<longleftrightarrow> loadFrontier e peer sm = (Inr r, sm')"
  by (auto simp: loadFrontier_2_def loadFrontier_def split: option.splits sum.splits prod.splits if_splits)

text \<open>
  A successful load leaves the peer cached, touches no file, and keeps every allocated
  map as it is.
\<close>

lemma loadFrontier_Inr:
  assumes "loadFrontier e peer sm = (Inr r, sm')"
  shows "open_cache sm' (ref_String e peer) = Some r"
    and "files sm' = files sm"
    and "fresh sm \<le> fresh sm'"
    and "x < fresh sm \<Longrightarrow> heap sm' x = heap sm x"
    and "k \<noteq> ref_String e peer \<Longrightarrow> open_cache sm' k = open_cache sm k"
    and "wf_sm sm \<Longrightarrow> wf_sm sm'"
    and "wf_sm sm \<Longrightarrow> r < fresh sm'"
  using assms
  by (auto simp: loadFrontier_def make_frontier_def wf_sm_def less_Suc_eq
      split: option.splits sum.splits prod.splits if_splits)

subsection \<open>Writing through a reference\<close>

lemma map_store_fields [simp]:
  "open_cache (map_store r k v sm) = open_cache sm"
  "files (map_store r k v sm) = files sm"
  "fresh (map_store r k v sm) = fresh sm"
  "basePath (map_store r k v sm) = basePath sm"
  "self (map_store r k v sm) = self sm"
  "wantList (map_store r k v sm) = wantList sm"
  "GetSink (map_store r k v sm) = GetSink sm"
  "heap (map_store r k v sm) = (heap sm)(r := fmupd k v (heap sm r))"
  by (simp_all add: map_store_def)

lemma map_delete_fields [simp]:
  "open_cache (map_delete r k sm) = open_cache sm"
  "files (map_delete r k sm) = files sm"
  "fresh (map_delete r k sm) = fresh sm"
  "basePath (map_delete r k sm) = basePath sm"
  "self (map_delete r k sm) = self sm"
  "wantList (map_delete r k sm) = wantList sm"
  "GetSink (map_delete r k sm) = GetSink sm"
  "heap (map_delete r k sm) = (heap sm)(r := fmdrop k (heap sm r))"
  by (simp_all add: map_delete_def)

lemma range_store_fields [simp]:
  "open_cache (range_store dst es sm) = open_cache sm"
  "files (range_store dst es sm) = files sm"
  "fresh (range_store dst es sm) = fresh sm"
  "basePath (range_store dst es sm) = basePath sm"
  "self (range_store dst es sm) = self sm"
  "wantList (range_store dst es sm) = wantList sm"
  "GetSink (range_store dst es sm) = GetSink sm"
  by (induction dst es sm rule: range_store.induct) simp_all

text \<open>
  The copying loop writes the entries in the order of the \<open>range\<close>; the last write to a
  key stays.
\<close>

lemma range_store_heap:
  "heap (range_store dst es sm) = (heap sm)(dst := heap sm dst ++\<^sub>f fmap_of_list (rev es))"
  by (induction dst es sm rule: range_store.induct) (simp_all add: fun_eq_iff)

lemma map_of_rev_distinct: "distinct (map fst es) \<Longrightarrow> map_of (rev es) = map_of es"
proof (induction es)
  case Nil
  then show ?case by simp
next
  case (Cons a es)
  obtain k v where a: "a = (k, v)" by (cases a)
  have "k \<notin> fst ` set es" using Cons.prems by (simp add: a)
  then have "map_of es k = None" by (simp add: map_of_eq_None_iff)
  moreover have "map_of (rev es) = map_of es" using Cons by simp
  ultimately show ?case
    by (auto simp: a fun_eq_iff map_add_def split: option.splits)
qed

lemma fmap_of_list_rev: "distinct (map fst es) \<Longrightarrow> fmap_of_list (rev es) = fmap_of_list es"
  by (rule fmap_ext) (simp add: fmlookup_of_list map_of_rev_distinct)

lemma range_store_range_ok:
  "range_ok e m \<Longrightarrow> heap (range_store dst (range_order e m) sm) = (heap sm)(dst := heap sm dst ++\<^sub>f m)"
  by (simp add: range_store_heap range_ok_def fmap_of_list_rev)

subsection \<open>The loops of Changed\<close>

lemma Changed_loop_Cons:
  "Changed_loop ps p r ((F, myNote) # rest) sm =
     Changed_loop ps p r rest
       (if advertised ps (heap sm p) F myNote then map_store r F myNote sm else sm)"
  by (auto simp: advertised_def zero_Note_def Let_def split: option.splits)

lemma Changed_loop_fields [simp]:
  "open_cache (Changed_loop ps p r es sm) = open_cache sm"
  "files (Changed_loop ps p r es sm) = files sm"
  "fresh (Changed_loop ps p r es sm) = fresh sm"
proof (induction es arbitrary: sm)
  case Nil
  { case 1 show ?case by simp }
  { case 2 show ?case by simp }
  { case 3 show ?case by simp }
next
  case (Cons a es)
  obtain F myNote where a: "a = (F, myNote)" by (cases a)
  { case 1 show ?case unfolding a Changed_loop_Cons by (simp add: Cons.IH) }
  { case 2 show ?case unfolding a Changed_loop_Cons by (simp add: Cons.IH) }
  { case 3 show ?case unfolding a Changed_loop_Cons by (simp add: Cons.IH) }
qed

text \<open>
  The loop of the second listing's \<open>Changed\<close> stores exactly the advertised entries.
\<close>

lemma Changed_loop_heap:
  "r \<noteq> p \<Longrightarrow>
   heap (Changed_loop ps p r es sm) =
     (heap sm)(r := heap sm r ++\<^sub>f
        fmap_of_list (rev (filter (\<lambda>(F, myNote). advertised ps (heap sm p) F myNote) es)))"
proof (induction es arbitrary: sm)
  case Nil
  then show ?case by simp
next
  case (Cons a es)
  obtain F myNote where a: "a = (F, myNote)" by (cases a)
  show ?case
  proof (cases "advertised ps (heap sm p) F myNote")
    case True
    have same: "heap (map_store r F myNote sm) p = heap sm p"
      using Cons.prems by simp
    show ?thesis
      unfolding a Changed_loop_Cons using True Cons.prems
      by (simp add: Cons.IH [OF Cons.prems] same fun_eq_iff)
  next
    case False
    show ?thesis
      unfolding a Changed_loop_Cons using False
      by (simp add: Cons.IH [OF Cons.prems])
  qed
qed

lemma map_of_filter_distinct:
  "distinct (map fst es) \<Longrightarrow>
   map_of (filter (\<lambda>(k, v). P k v) es) k =
     (case map_of es k of None \<Rightarrow> None | Some v \<Rightarrow> if P k v then Some v else None)"
proof (induction es)
  case Nil
  then show ?case by simp
next
  case (Cons a es)
  obtain k' v' where a: "a = (k', v')" by (cases a)
  have "k' \<notin> fst ` set es" using Cons.prems by (simp add: a)
  then have none: "map_of es k' = None" by (simp add: map_of_eq_None_iff)
  show ?case using Cons none by (auto simp: a split: option.splits)
qed

lemma fmap_of_list_filter:
  assumes "distinct (map fst es)"
  shows "fmap_of_list (rev (filter (\<lambda>(k, v). P k v) es)) =
         fmfilter (\<lambda>k. case fmlookup (fmap_of_list es) k of None \<Rightarrow> False | Some v \<Rightarrow> P k v)
           (fmap_of_list es)"
proof -
  have d: "distinct (map fst (filter (\<lambda>(k, v). P k v) es))"
    using assms by (simp add: distinct_map_filter)
  show ?thesis
    unfolding fmap_of_list_rev [OF d]
    by (rule fmap_ext) (auto simp: fmlookup_of_list map_of_filter_distinct [OF assms] split: option.splits)
qed

lemma Changed_loop_range_ok:
  assumes "r \<noteq> p" and "range_ok e selfNf"
  shows "heap (Changed_loop ps p r (range_order e selfNf) sm) =
           (heap sm)(r := heap sm r ++\<^sub>f Changed_spec ps selfNf (heap sm p))"
proof -
  have d: "distinct (map fst (range_order e selfNf))" and m: "fmap_of_list (range_order e selfNf) = selfNf"
    using assms(2) by (simp_all add: range_ok_def)
  show ?thesis
    unfolding Changed_loop_heap [OF assms(1)] fmap_of_list_filter [OF d] m Changed_spec_def ..
qed

text \<open>
  \<open>Changed\<close> of the second listing: a new map that holds the advertised part of self's
  frontier.
\<close>

lemma Changed_2_result:
  assumes wf: "wf_sm sm"
    and l1: "loadFrontier_2 e slf sm = (Inr s, sm1)"
    and l2: "loadFrontier_2 e peer sm1 = (Inr p, sm2)"
    and ro: "range_ok e (heap sm2 s)"
  shows "\<exists>sm'. Changed_2 e slf peer sm = (Inr (fresh sm2), sm')
           \<and> heap sm' (fresh sm2) = Changed_spec (ref_String e peer) (heap sm2 s) (heap sm2 p)
           \<and> (\<forall>x. x \<noteq> fresh sm2 \<longrightarrow> heap sm' x = heap sm2 x)
           \<and> open_cache sm' = open_cache sm2 \<and> files sm' = files sm"
proof -
  have l1': "loadFrontier e slf sm = (Inr s, sm1)" and l2': "loadFrontier e peer sm1 = (Inr p, sm2)"
    using l1 l2 by (simp_all add: loadFrontier_2_Inr_iff)
  have wf1: "wf_sm sm1" and s1: "s < fresh sm1"
    using loadFrontier_Inr(6,7) [OF l1' wf] by simp_all
  have wf2: "wf_sm sm2" and p2: "p < fresh sm2" and le: "fresh sm1 \<le> fresh sm2"
    using loadFrontier_Inr(6,7) [OF l2' wf1] loadFrontier_Inr(3) [OF l2'] by simp_all
  have s2: "s < fresh sm2" using s1 le by simp
  have fl: "files sm2 = files sm"
    using loadFrontier_Inr(2) [OF l1'] loadFrontier_Inr(2) [OF l2'] by simp
  define sm3 where "sm3 = snd (make_frontier sm2)"
  have mk: "make_frontier sm2 = (fresh sm2, sm3)"
    by (simp add: sm3_def make_frontier_def)
  have h3: "heap sm3 = (heap sm2)(fresh sm2 := fmempty)" "open_cache sm3 = open_cache sm2" "files sm3 = files sm2"
    by (simp_all add: sm3_def make_frontier_def)
  have hs: "heap sm3 s = heap sm2 s" and hp: "heap sm3 p = heap sm2 p"
    using s2 p2 by (simp_all add: h3)
  have ne: "fresh sm2 \<noteq> p" using p2 by simp
  have ro3: "range_ok e (heap sm3 s)" using ro hs by simp
  have res: "Changed_2 e slf peer sm =
      (Inr (fresh sm2), Changed_loop (ref_String e peer) p (fresh sm2) (range_order e (heap sm3 s)) sm3)"
    by (simp add: Changed_2_def l1 l2 mk)
  have hp': "heap (Changed_loop (ref_String e peer) p (fresh sm2) (range_order e (heap sm3 s)) sm3) =
       (heap sm3)(fresh sm2 := heap sm3 (fresh sm2) ++\<^sub>f Changed_spec (ref_String e peer) (heap sm3 s) (heap sm3 p))"
    by (rule Changed_loop_range_ok [OF ne ro3])
  show ?thesis
    unfolding res using hp' hs hp fl by (simp add: h3)
qed

lemma loadLocalFrontier_loop_fields:
  assumes "loadLocalFrontier_loop e f list sm = (res, sm')"
  shows "open_cache sm' = open_cache sm \<and> files sm' = files sm \<and> fresh sm' = fresh sm
         \<and> GetSink sm' = GetSink sm \<and> wantList sm' = wantList sm
         \<and> (\<forall>x. x \<noteq> f \<longrightarrow> heap sm' x = heap sm x)"
  using assms
proof (induction list arbitrary: sm)
  case Nil
  then show ?case by simp
next
  case (Cons ref list)
  show ?case
  proof (cases "GetSink sm ref")
    case (Inl err)
    then show ?thesis using Cons.prems by simp
  next
    case (Inr q)
    then have "loadLocalFrontier_loop e f list
        (map_store f (ref_String e ref) \<lparr>Seq = q, Replicate = True, Receive = True\<rparr> sm) = (res, sm')"
      using Cons.prems by simp
    from Cons.IH [OF this] show ?thesis by simp
  qed
qed

lemma loadLocalFrontier_loop_ok:
  assumes "loadLocalFrontier_loop e f list sm = (None, sm')"
  shows "heap sm' f = heap sm f ++\<^sub>f
           fmap_of_list (rev (map (\<lambda>ref. (ref_String e ref, local_note sm ref)) list))"
  using assms
proof (induction list arbitrary: sm)
  case Nil
  then show ?case by simp
next
  case (Cons ref list)
  from Cons.prems obtain q where q: "GetSink sm ref = Inr q"
    by (cases "GetSink sm ref") auto
  define sm1 where "sm1 = map_store f (ref_String e ref) \<lparr>Seq = q, Replicate = True, Receive = True\<rparr> sm"
  have step: "loadLocalFrontier_loop e f list sm1 = (None, sm')"
    using Cons.prems q by (simp add: sm1_def)
  have g: "GetSink sm1 = GetSink sm" by (simp add: sm1_def)
  have ln: "local_note sm1 = local_note sm" by (simp add: local_note_def g fun_eq_iff)
  have h1: "heap sm1 f = fmupd (ref_String e ref) (local_note sm ref) (heap sm f)"
    by (simp add: sm1_def local_note_def q)
  show ?case
    using Cons.IH [OF step] by (simp add: ln h1)
qed

lemma loadLocalFrontier_Inr:
  assumes "loadLocalFrontier e sm = (Inr s, sm1)"
  shows "\<exists>list. wantList sm = Inr list \<and> s = fresh sm \<and> fresh sm1 = Suc (fresh sm)
           \<and> heap sm1 s = fmap_of_list (rev (map (\<lambda>ref. (ref_String e ref, local_note sm ref)) list))
           \<and> open_cache sm1 = open_cache sm \<and> files sm1 = files sm
           \<and> (\<forall>x. x \<noteq> s \<longrightarrow> heap sm1 x = heap sm x)"
proof -
  from assms obtain list where wl: "wantList sm = Inr list"
    by (cases "wantList sm") (auto simp: loadLocalFrontier_def)
  define sm0 where "sm0 = snd (make_frontier sm)"
  have mk: "make_frontier sm = (fresh sm, sm0)" by (simp add: sm0_def make_frontier_def)
  have sm0: "heap sm0 = (heap sm)(fresh sm := fmempty)" "fresh sm0 = Suc (fresh sm)"
    "open_cache sm0 = open_cache sm" "files sm0 = files sm" "GetSink sm0 = GetSink sm"
    by (simp_all add: sm0_def make_frontier_def)
  from assms have loop: "loadLocalFrontier_loop e (fresh sm) list sm0 = (None, sm1)" and s: "s = fresh sm"
    by (auto simp: loadLocalFrontier_def wl mk split: prod.splits option.splits)
  have ln: "local_note sm0 = local_note sm" by (simp add: local_note_def sm0 fun_eq_iff)
  show ?thesis
    using loadLocalFrontier_loop_ok [OF loop] loadLocalFrontier_loop_fields [OF loop]
    by (auto simp: wl s sm0 ln)
qed

text \<open>
  \<open>Changed\<close> of the first listing: a new map that holds the whole local frontier.
\<close>

lemma Changed_result:
  assumes l: "loadLocalFrontier e sm = (Inr s, sm1)" and ro: "range_ok e (heap sm1 s)"
  shows "\<exists>sm'. Changed e slf peer sm = (Inr (fresh sm1), sm')
           \<and> heap sm' (fresh sm1) = heap sm1 s
           \<and> (\<forall>x. x \<noteq> fresh sm1 \<longrightarrow> heap sm' x = heap sm1 x)
           \<and> open_cache sm' = open_cache sm \<and> files sm' = files sm"
proof -
  from loadLocalFrontier_Inr [OF l] have s: "s = fresh sm" and f1: "fresh sm1 = Suc (fresh sm)"
    and oc: "open_cache sm1 = open_cache sm" and fl: "files sm1 = files sm"
    by auto
  define sm2 where "sm2 = snd (make_frontier sm1)"
  have mk: "make_frontier sm1 = (fresh sm1, sm2)" by (simp add: sm2_def make_frontier_def)
  have h2: "heap sm2 = (heap sm1)(fresh sm1 := fmempty)" "open_cache sm2 = open_cache sm1" "files sm2 = files sm1"
    by (simp_all add: sm2_def make_frontier_def)
  have hs: "heap sm2 s = heap sm1 s" using s f1 by (simp add: h2)
  have ro2: "range_ok e (heap sm2 s)" using ro hs by simp
  have res: "Changed e slf peer sm =
       (Inr (fresh sm1), range_store (fresh sm1) (range_order e (heap sm2 s)) sm2)"
    by (simp add: Changed_def l mk)
  show ?thesis
    unfolding res using range_store_range_ok [OF ro2, of "fresh sm1" sm2] hs oc fl
    by (simp add: h2)
qed

subsection \<open>The loops of Fill and Update\<close>

lemma Fill_loop_fields [simp]:
  "open_cache (Fill_loop e nf feeds sm) = open_cache sm"
  "files (Fill_loop e nf feeds sm) = files sm"
  "fresh (Fill_loop e nf feeds sm) = fresh sm"
  "basePath (Fill_loop e nf feeds sm) = basePath sm"
  "self (Fill_loop e nf feeds sm) = self sm"
  "wantList (Fill_loop e nf feeds sm) = wantList sm"
  "GetSink (Fill_loop e nf feeds sm) = GetSink sm"
  by (induction e nf feeds sm rule: Fill_loop.induct) simp_all

lemma Fill_loop_other: "x \<noteq> nf \<Longrightarrow> heap (Fill_loop e nf feeds sm) x = heap sm x"
  by (induction e nf feeds sm rule: Fill_loop.induct) (simp_all add: map_store_def map_delete_def)

lemma find_append_case:
  "find P (xs @ ys) = (case find P xs of None \<Rightarrow> find P ys | Some x \<Rightarrow> Some x)"
  by (induction xs) simp_all

text \<open>
  After the loop of \<open>Fill\<close> the entry of a key is decided by the last element of the list
  that names it.
\<close>

lemma Fill_loop_lookup:
  "fmlookup (heap (Fill_loop e nf feeds sm) nf) k =
     (case last_observed e feeds k of
        None \<Rightarrow> fmlookup (heap sm nf) k
      | Some observed \<Rightarrow> if Replicate observed then Some (Note.truncate observed) else None)"
proof (induction feeds arbitrary: sm)
  case Nil
  then show ?case by (simp add: last_observed_def)
next
  case (Cons a feeds)
  show ?case
    by (cases "find (\<lambda>observed. ref_String e (Feed observed) = k) (rev feeds)")
       (auto simp: Cons.IH last_observed_def find_append_case map_store_def map_delete_def)
qed

lemma Fill_result:
  assumes "loadFrontier e who sm = (Inr nf, sm1)"
  shows "\<exists>sm'. Fill e who feeds sm = (None, sm')
           \<and> open_cache sm' = open_cache sm1 \<and> open_cache sm' (ref_String e who) = Some nf
           \<and> files sm' = files sm
           \<and> (\<forall>x. x \<noteq> nf \<longrightarrow> heap sm' x = heap sm1 x)
           \<and> (\<forall>k. fmlookup (heap sm' nf) k =
                 (case last_observed e feeds k of
                    None \<Rightarrow> fmlookup (heap sm1 nf) k
                  | Some observed \<Rightarrow>
                      if Replicate observed then Some (Note.truncate observed) else None))"
  using assms loadFrontier_Inr(1,2) [OF assms]
  by (auto simp: Fill_def Let_def Fill_loop_lookup Fill_loop_other fun_upd_idem_iff)

lemma Fill_2_result:
  assumes "loadFrontier_2 e who sm = (Inr nf, sm1)" and "feeds \<noteq> []"
  shows "\<exists>sm'. Fill_2 e who feeds sm = (None, sm')
           \<and> open_cache sm' = open_cache sm1 \<and> open_cache sm' (ref_String e who) = Some nf
           \<and> files sm' = files sm
           \<and> (\<forall>x. x \<noteq> nf \<longrightarrow> heap sm' x = heap sm1 x)
           \<and> (\<forall>k. fmlookup (heap sm' nf) k =
                 (case last_observed e feeds k of
                    None \<Rightarrow> fmlookup (heap sm1 nf) k
                  | Some observed \<Rightarrow>
                      if Replicate observed then Some (Note.truncate observed) else None))"
proof -
  have l: "loadFrontier e who sm = (Inr nf, sm1)"
    using assms(1) by (simp add: loadFrontier_2_Inr_iff)
  show ?thesis
    using assms loadFrontier_Inr(1,2) [OF l]
    by (auto simp: Fill_2_def Let_def Fill_loop_lookup Fill_loop_other fun_upd_idem_iff)
qed

lemma Update_2_result:
  assumes l: "loadFrontier_2 e who sm = (Inr current, sm1)" and ro: "range_ok e update"
  shows "\<exists>sm'. Update_2 e who update sm = (Inr current, sm')
           \<and> open_cache sm' = open_cache sm1 \<and> open_cache sm' (ref_String e who) = Some current
           \<and> files sm' = files sm
           \<and> heap sm' = (heap sm1)(current := heap sm1 current ++\<^sub>f update)"
proof -
  have l': "loadFrontier e who sm = (Inr current, sm1)"
    using l by (simp add: loadFrontier_2_Inr_iff)
  show ?thesis
    using l loadFrontier_Inr(1,2) [OF l'] range_store_range_ok [OF ro]
    by (auto simp: Update_2_def Let_def fun_upd_idem_iff)
qed

lemma Update_result:
  assumes wf: "wf_sm sm" and l: "loadFrontier e who sm = (Inr current, sm1)"
    and ro: "range_ok e update" and ro2: "range_ok e (heap sm1 current ++\<^sub>f update)"
  shows "\<exists>sm'. Update e who update sm = (Inr (fresh sm1), sm')
           \<and> open_cache sm' = open_cache sm1 \<and> open_cache sm' (ref_String e who) = Some current
           \<and> files sm' = files sm
           \<and> current \<noteq> fresh sm1
           \<and> (\<forall>k. open_cache sm' k \<noteq> Some (fresh sm1))
           \<and> heap sm' = (heap sm1)(current := heap sm1 current ++\<^sub>f update,
                                   fresh sm1 := heap sm1 current ++\<^sub>f update)"
proof -
  have c: "current < fresh sm1" and wf1: "wf_sm sm1"
    using loadFrontier_Inr(6,7) [OF l wf] by simp_all
  have oc: "open_cache sm1 (ref_String e who) = Some current" and fl: "files sm1 = files sm"
    using loadFrontier_Inr(1,2) [OF l] by simp_all
  define sm2 where "sm2 = range_store current (range_order e update) sm1"
  define sm3 where "sm3 = sm2\<lparr>open_cache := (open_cache sm1)(ref_String e who \<mapsto> current)\<rparr>"
  define sm4 where "sm4 = snd (make_frontier sm3)"
  have h2: "heap sm2 = (heap sm1)(current := heap sm1 current ++\<^sub>f update)"
    unfolding sm2_def by (rule range_store_range_ok [OF ro])
  have f3: "fresh sm3 = fresh sm1" "heap sm3 = heap sm2" "open_cache sm3 = open_cache sm1" "files sm3 = files sm"
    using oc fl by (simp_all add: sm3_def sm2_def fun_upd_idem_iff)
  have mk: "make_frontier sm3 = (fresh sm1, sm4)"
    by (simp add: sm4_def make_frontier_def f3)
  have h4: "heap sm4 = (heap sm2)(fresh sm1 := fmempty)" "open_cache sm4 = open_cache sm1" "files sm4 = files sm"
    by (simp_all add: sm4_def make_frontier_def f3)
  have h4c: "heap sm4 current = heap sm1 current ++\<^sub>f update"
    using c by (simp add: h4 h2)
  have ro4: "range_ok e (heap sm4 current)"
    using ro2 h4c by simp
  have res: "Update e who update sm =
       (Inr (fresh sm1), range_store (fresh sm1) (range_order e (heap sm4 current)) sm4)"
    using l mk by (simp add: Update_def Let_def sm2_def [symmetric] sm3_def [symmetric])
  have hfin: "heap (range_store (fresh sm1) (range_order e (heap sm4 current)) sm4) =
      (heap sm4)(fresh sm1 := heap sm4 (fresh sm1) ++\<^sub>f heap sm4 current)"
    by (rule range_store_range_ok [OF ro4])
  have nc: "\<forall>k. open_cache sm1 k \<noteq> Some (fresh sm1)"
    using wf1 by (auto simp: wf_sm_def)
  show ?thesis
    unfolding res using hfin h4c c nc oc
    by (auto simp: h4 h2 fun_eq_iff)
qed

subsection \<open>The example world\<close>

lemmas ex_defs = ex_env_def ex_sm_def ex_String_def ex_Parse_def ex_keys_def ex_range_def
  ex_selfNf_def ex_peerNf_def mkNote_def ref_A_def ref_B_def ref_C_def ref_X_def ref_Y_def ref_Z_def

lemma ex_wf: "wf_sm ex_sm"
  by (simp add: wf_sm_def ex_defs)

lemmas ex_defs2 = ex_defs ex_patch5_def ex_patch3_def

lemmas run_defs = loadFrontier_def loadFrontier_2_def make_frontier_def map_store_def map_delete_def
  zero_Note_def List.map_filter_simps StateFileName_def os_Open_def os_OpenFile_def os_Write_def
  os_Rename_def IsNotExist_def

lemma ex_loads:
  "loadFrontier ex_env ref_A ex_sm = (Inr 0, ex_sm)"
  "loadFrontier ex_env ref_B ex_sm = (Inr 1, ex_sm)"
  "loadFrontier_2 ex_env ref_A ex_sm = (Inr 0, ex_sm)"
  "loadFrontier_2 ex_env ref_B ex_sm = (Inr 1, ex_sm)"
  by (simp_all add: loadFrontier_def loadFrontier_2_def ex_defs)

lemma ex_heap: "heap ex_sm 0 = ex_selfNf" "heap ex_sm 1 = ex_peerNf"
  by (simp_all add: ex_sm_def)

lemma ex_range_self: "range_ok ex_env ex_selfNf"
  unfolding range_ok_def
  by (simp add: ex_defs List.map_filter_simps)

lemma ex_local: "loadLocalFrontier ex_env ex_sm =
   (Inr 2, ex_sm\<lparr>heap := (heap ex_sm)(2 := fmap_of_list [(''@X.ed25519'', mkNote 3 True True), (''@A.ed25519'', mkNote 7 True True)]),
               fresh := 3\<rparr>)"
  by (simp add: loadLocalFrontier_def run_defs ex_defs2)

subsection \<open>Changed\<close>

text \<open>
  C2, as stated: \<open>Changed(self, peer)\<close> leaves out a feed for which the peer's note has
  \<open>Replicate = false\<close>.  The first listing (lines 229-244) does not: in the example
  world the note that \<open>B\<close> holds for \<open>X\<close> has \<open>Replicate = false\<close> (and \<open>X\<close> is not
  \<open>B\<close>'s own feed), yet \<open>Changed A B\<close> returns a map with self's note for \<open>X\<close>.
\<close>

theorem Changed_counterexample:
  "recorded ex_env ref_B ''@X.ed25519'' ex_sm = Some \<lparr>Seq = 1, Replicate = False, Receive = False\<rparr>
   \<and> ref_String ex_env ref_B \<noteq> ''@X.ed25519''
   \<and> fst (Changed ex_env ref_A ref_B ex_sm) = Inr 3
   \<and> fmlookup (heap (snd (Changed ex_env ref_A ref_B ex_sm)) 3) ''@X.ed25519''
       = Some \<lparr>Seq = 3, Replicate = True, Receive = True\<rparr>"
  by (simp add: Changed_def loadLocalFrontier_def recorded_def run_defs ex_defs2)

text \<open>
  C2, amended.  In the second listing (lines 604-643), when both frontiers load,
  \<open>Changed(self, peer)\<close> returns a new map that is exactly the subset of self's stored
  frontier the claim describes (\<open>Changed_spec\<close>), a missing entry of the peer with
  self's \<open>Receive = false\<close> being left out.  In the first listing (lines 229-244), when
  the local frontier loads, \<open>Changed(self, peer)\<close> returns a new map that holds the
  whole local frontier, one note (\<open>local_note\<close>) for every feed of the replication
  list: no entry is filtered, and neither stored frontier is read.
\<close>

theorem Changed_relevant:
  "(wf_sm sm \<and> loadFrontier_2 e slf sm = (Inr s, sm1) \<and> loadFrontier_2 e peer sm1 = (Inr p, sm2)
      \<and> range_ok e (heap sm2 s)
     \<longrightarrow> (\<exists>r sm'. Changed_2 e slf peer sm = (Inr r, sm')
            \<and> heap sm' r = Changed_spec (ref_String e peer) (heap sm2 s) (heap sm2 p)))
   \<and> (loadLocalFrontier e sm = (Inr l, sm3) \<and> range_ok e (heap sm3 l)
     \<longrightarrow> (\<exists>r sm' list. Changed e slf peer sm = (Inr r, sm')
            \<and> wantList sm = Inr list
            \<and> heap sm' r = fmap_of_list (rev (map (\<lambda>ref. (ref_String e ref, local_note sm ref)) list))))"
proof (intro conjI impI)
  assume a: "wf_sm sm \<and> loadFrontier_2 e slf sm = (Inr s, sm1)
      \<and> loadFrontier_2 e peer sm1 = (Inr p, sm2) \<and> range_ok e (heap sm2 s)"
  then have "wf_sm sm" and "loadFrontier_2 e slf sm = (Inr s, sm1)"
    and "loadFrontier_2 e peer sm1 = (Inr p, sm2)" and "range_ok e (heap sm2 s)"
    by simp_all
  from Changed_2_result [OF this]
  show "\<exists>r sm'. Changed_2 e slf peer sm = (Inr r, sm')
            \<and> heap sm' r = Changed_spec (ref_String e peer) (heap sm2 s) (heap sm2 p)"
    by blast
next
  assume b: "loadLocalFrontier e sm = (Inr l, sm3) \<and> range_ok e (heap sm3 l)"
  then have l: "loadLocalFrontier e sm = (Inr l, sm3)" and ro: "range_ok e (heap sm3 l)"
    by simp_all
  from loadLocalFrontier_Inr [OF l] obtain list where
    wl: "wantList sm = Inr list"
    and h: "heap sm3 l = fmap_of_list (rev (map (\<lambda>ref. (ref_String e ref, local_note sm ref)) list))"
    by blast
  from Changed_result [OF l ro] obtain sm' where
    "Changed e slf peer sm = (Inr (fresh sm3), sm')" and "heap sm' (fresh sm3) = heap sm3 l"
    by blast
  then show "\<exists>r sm' list. Changed e slf peer sm = (Inr r, sm')
            \<and> wantList sm = Inr list
            \<and> heap sm' r = fmap_of_list (rev (map (\<lambda>ref. (ref_String e ref, local_note sm ref)) list))"
    using wl h by auto
qed

theorem Changed_relevant_witness:
  "fst (Changed_2 ex_env ref_A ref_B ex_sm) = Inr 2
   \<and> fmlookup (heap (snd (Changed_2 ex_env ref_A ref_B ex_sm)) 2) ''@A.ed25519''
       = Some \<lparr>Seq = 7, Replicate = True, Receive = True\<rparr>
   \<and> fmlookup (heap (snd (Changed_2 ex_env ref_A ref_B ex_sm)) 2) ''@B.ed25519''
       = Some \<lparr>Seq = 2, Replicate = True, Receive = True\<rparr>
   \<and> fmlookup (heap (snd (Changed_2 ex_env ref_A ref_B ex_sm)) 2) ''@C.ed25519'' = None
   \<and> fmlookup (heap (snd (Changed_2 ex_env ref_A ref_B ex_sm)) 2) ''@X.ed25519'' = None
   \<and> fmlookup (heap (snd (Changed_2 ex_env ref_A ref_B ex_sm)) 2) ''@Y.ed25519'' = None
   \<and> fst (Changed ex_env ref_A ref_B ex_sm) = Inr 3
   \<and> fmlookup (heap (snd (Changed ex_env ref_A ref_B ex_sm)) 3) ''@A.ed25519''
       = Some \<lparr>Seq = 7, Replicate = True, Receive = True\<rparr>
   \<and> fmlookup (heap (snd (Changed ex_env ref_A ref_B ex_sm)) 3) ''@X.ed25519''
       = Some \<lparr>Seq = 3, Replicate = True, Receive = True\<rparr>"
proof -
  have r1: "range_ok ex_env (heap ex_sm 0)"
    unfolding ex_heap by (rule ex_range_self)
  define sm3 where "sm3 = ex_sm\<lparr>heap := (heap ex_sm)(2 := fmap_of_list [(''@X.ed25519'', mkNote 3 True True), (''@A.ed25519'', mkNote 7 True True)]), fresh := 3\<rparr>"
  have l3: "loadLocalFrontier ex_env ex_sm = (Inr 2, sm3)"
    unfolding sm3_def by (rule ex_local)
  have r3: "range_ok ex_env (heap sm3 2)"
    unfolding range_ok_def sm3_def
    by (simp add: run_defs ex_defs2) (rule fmap_ext, auto)
  have f2: "fst (Changed_2 ex_env ref_A ref_B ex_sm) = Inr 2"
    by (simp add: Changed_2_def ex_loads make_frontier_def) (simp add: ex_sm_def)
  have f3: "fst (Changed ex_env ref_A ref_B ex_sm) = Inr 3"
    by (simp add: Changed_def l3 make_frontier_def) (simp add: sm3_def)
  have wl: "wantList ex_sm = Inr [ref_A, ref_X]"
    by (simp add: ex_sm_def)
  have ln: "local_note ex_sm ref_A = \<lparr>Seq = 7, Replicate = True, Receive = True\<rparr>"
    "local_note ex_sm ref_X = \<lparr>Seq = 3, Replicate = True, Receive = True\<rparr>"
    by (simp_all add: local_note_def ex_defs2)
  from Changed_relevant [where sm = ex_sm and e = ex_env and slf = ref_A and peer = ref_B
      and s = 0 and ?sm1.0 = ex_sm and p = 1 and ?sm2.0 = ex_sm and l = 2 and ?sm3.0 = sm3]
    ex_wf ex_loads(3) ex_loads(4) r1 l3 r3 f2 f3 wl
  have "heap (snd (Changed_2 ex_env ref_A ref_B ex_sm)) 2
          = Changed_spec (ref_String ex_env ref_B) ex_selfNf ex_peerNf"
    and "heap (snd (Changed ex_env ref_A ref_B ex_sm)) 3
          = fmap_of_list (rev (map (\<lambda>ref. (ref_String ex_env ref, local_note ex_sm ref)) [ref_A, ref_X]))"
    unfolding ex_heap by auto
  then show ?thesis
    using f2 f3 ln
    by (simp add: Changed_spec_def advertised_def ex_defs2)
qed

subsection \<open>What is recorded after Update and Fill\<close>

lemma recorded_after_Update:
  assumes wf: "wf_sm sm" and l: "loadFrontier e who sm = (Inr current, sm1)"
    and ro: "range_ok e update" and ro2: "range_ok e (heap sm1 current ++\<^sub>f update)"
  shows "\<exists>r sm'. Update e who update sm = (Inr r, sm')
           \<and> (\<forall>F. recorded e who F sm' = fmlookup (heap sm1 current ++\<^sub>f update) F)
           \<and> heap sm' r = heap sm1 current ++\<^sub>f update
           \<and> (\<forall>k. open_cache sm' k \<noteq> Some r)"
proof -
  from Update_result [OF wf l ro ro2] obtain sm' where
    u: "Update e who update sm = (Inr (fresh sm1), sm')"
    and oc: "open_cache sm' (ref_String e who) = Some current"
    and ne: "current \<noteq> fresh sm1"
    and nc: "\<forall>k. open_cache sm' k \<noteq> Some (fresh sm1)"
    and h: "heap sm' = (heap sm1)(current := heap sm1 current ++\<^sub>f update,
                                   fresh sm1 := heap sm1 current ++\<^sub>f update)"
    by blast
  have "\<forall>F. recorded e who F sm' = fmlookup (heap sm1 current ++\<^sub>f update) F"
    using oc ne by (simp add: recorded_def h)
  moreover have "heap sm' (fresh sm1) = heap sm1 current ++\<^sub>f update"
    by (simp add: h)
  ultimately show ?thesis
    using u nc by blast
qed

lemma recorded_after_Update_2:
  assumes l: "loadFrontier_2 e who sm = (Inr current, sm1)" and ro: "range_ok e update"
  shows "\<exists>sm'. Update_2 e who update sm = (Inr current, sm')
           \<and> open_cache sm' (ref_String e who) = Some current
           \<and> (\<forall>F. recorded e who F sm' = fmlookup (heap sm1 current ++\<^sub>f update) F)"
proof -
  from Update_2_result [OF l ro] obtain sm' where
    u: "Update_2 e who update sm = (Inr current, sm')"
    and oc: "open_cache sm' (ref_String e who) = Some current"
    and h: "heap sm' = (heap sm1)(current := heap sm1 current ++\<^sub>f update)"
    by blast
  have "\<forall>F. recorded e who F sm' = fmlookup (heap sm1 current ++\<^sub>f update) F"
    using oc by (simp add: recorded_def h)
  then show ?thesis
    using u oc by blast
qed

lemma recorded_after_Fill:
  assumes "loadFrontier e who sm = (Inr nf, sm1)"
  shows "\<exists>sm'. Fill e who feeds sm = (None, sm')
           \<and> (\<forall>k. recorded e who k sm' = observed_entry e feeds (heap sm1 nf) k)"
proof -
  from Fill_result [OF assms, of feeds] obtain sm' where
    f: "Fill e who feeds sm = (None, sm')"
    and oc: "open_cache sm' (ref_String e who) = Some nf"
    and lk: "\<forall>k. fmlookup (heap sm' nf) k =
                 (case last_observed e feeds k of
                    None \<Rightarrow> fmlookup (heap sm1 nf) k
                  | Some observed \<Rightarrow>
                      if Replicate observed then Some (Note.truncate observed) else None)"
    by blast
  have "\<forall>k. recorded e who k sm' = observed_entry e feeds (heap sm1 nf) k"
    using oc lk by (simp add: recorded_def observed_entry_def)
  then show ?thesis using f by blast
qed

lemma recorded_after_Fill_2:
  assumes "loadFrontier_2 e who sm = (Inr nf, sm1)" and "feeds \<noteq> []"
  shows "\<exists>sm'. Fill_2 e who feeds sm = (None, sm')
           \<and> (\<forall>k. recorded e who k sm' = observed_entry e feeds (heap sm1 nf) k)"
proof -
  from Fill_2_result [OF assms] obtain sm' where
    f: "Fill_2 e who feeds sm = (None, sm')"
    and oc: "open_cache sm' (ref_String e who) = Some nf"
    and lk: "\<forall>k. fmlookup (heap sm' nf) k =
                 (case last_observed e feeds k of
                    None \<Rightarrow> fmlookup (heap sm1 nf) k
                  | Some observed \<Rightarrow>
                      if Replicate observed then Some (Note.truncate observed) else None)"
    by blast
  have "\<forall>k. recorded e who k sm' = observed_entry e feeds (heap sm1 nf) k"
    using oc lk by (simp add: recorded_def observed_entry_def)
  then show ?thesis using f by blast
qed

lemma last_observed_nonempty: "last_observed e feeds F = Some observed \<Longrightarrow> feeds \<noteq> []"
  by (auto simp: last_observed_def)

lemma ex_range_ok_small:
  "range_ok ex_env ex_patch3" "range_ok ex_env ex_patch5"
  "range_ok ex_env (ex_peerNf ++\<^sub>f ex_patch3)" "range_ok ex_env (ex_peerNf ++\<^sub>f ex_patch5)"
  unfolding range_ok_def
  by (simp_all add: run_defs ex_defs2 ex_observed_X_def) (rule fmap_ext, auto)+

subsection \<open>Sequence numbers across Update and Fill\<close>

text \<open>
  C3, as stated: across successful \<open>Update\<close> and \<open>Fill\<close> calls whose incoming notes have
  \<open>Replicate = true\<close>, the recorded \<open>Seq\<close> never decreases.  It does: after an \<open>Update\<close>
  of \<open>B\<close> with \<open>X\<close> at 5, an \<open>Update\<close> with \<open>X\<close> at 3 records 3, and a \<open>Fill\<close> with \<open>X\<close>
  at 0 records 0.
\<close>

theorem Seq_decreases_counterexample:
  "fmlookup ex_patch5 ''@X.ed25519'' = Some \<lparr>Seq = 5, Replicate = True, Receive = True\<rparr>
   \<and> fmlookup ex_patch3 ''@X.ed25519'' = Some \<lparr>Seq = 3, Replicate = True, Receive = True\<rparr>
   \<and> fst (Update_2 ex_env ref_B ex_patch5 ex_sm) = Inr 1
   \<and> map_option Seq (recorded ex_env ref_B ''@X.ed25519'' (snd (Update_2 ex_env ref_B ex_patch5 ex_sm)))
       = Some 5
   \<and> fst (Update_2 ex_env ref_B ex_patch3 (snd (Update_2 ex_env ref_B ex_patch5 ex_sm))) = Inr 1
   \<and> map_option Seq (recorded ex_env ref_B ''@X.ed25519''
        (snd (Update_2 ex_env ref_B ex_patch3 (snd (Update_2 ex_env ref_B ex_patch5 ex_sm)))))
       = Some 3
   \<and> fst (Fill_2 ex_env ref_B ex_observed_X (snd (Update_2 ex_env ref_B ex_patch5 ex_sm))) = None
   \<and> map_option Seq (recorded ex_env ref_B ''@X.ed25519''
        (snd (Fill_2 ex_env ref_B ex_observed_X (snd (Update_2 ex_env ref_B ex_patch5 ex_sm)))))
       = Some 0"
  by (simp add: Update_2_def Fill_2_def recorded_def Note.truncate_def run_defs ex_defs2 ex_observed_X_def)

text \<open>
  C3, amended (last write wins).  When the peer's frontier loads, a successful
  \<open>Update\<close> whose patch has the note \<open>n\<close> for the feed records \<open>n\<close>, and a \<open>Fill\<close> whose
  last element for the feed has \<open>Replicate = true\<close> records that element's note:
  the recorded \<open>Seq\<close> is the incoming one, whether higher or lower than before.
\<close>

theorem recorded_Seq_last_write_wins:
  assumes "loadFrontier_2 e who sm = (Inr current, sm1)"
    and "range_ok e update" and "fmlookup update F = Some n"
    and "last_observed e feeds F = Some observed" and "Replicate observed"
  shows "(\<exists>r sm'. Update_2 e who update sm = (Inr r, sm') \<and> recorded e who F sm' = Some n)
       \<and> (\<exists>sm'. Fill_2 e who feeds sm = (None, sm')
            \<and> recorded e who F sm' = Some (Note.truncate observed))"
proof -
  have ne: "feeds \<noteq> []" using assms(4) by (rule last_observed_nonempty)
  have a: "\<exists>r sm'. Update_2 e who update sm = (Inr r, sm') \<and> recorded e who F sm' = Some n"
    using recorded_after_Update_2 [OF assms(1,2)] assms(3) by (auto simp: fmlookup_dom_iff)
  have b: "\<exists>sm'. Fill_2 e who feeds sm = (None, sm')
            \<and> recorded e who F sm' = Some (Note.truncate observed)"
    using recorded_after_Fill_2 [OF assms(1) ne] assms(4,5)
    by (auto simp: observed_entry_def)
  from a b show ?thesis by blast
qed

theorem recorded_Seq_last_write_wins_witness:
  "map_option Seq (recorded ex_env ref_B ''@X.ed25519'' ex_sm) = Some 1
   \<and> fst (Update_2 ex_env ref_B ex_patch3 ex_sm) = Inr 1
   \<and> map_option Seq (recorded ex_env ref_B ''@X.ed25519'' (snd (Update_2 ex_env ref_B ex_patch3 ex_sm)))
       = Some 3
   \<and> fst (Fill_2 ex_env ref_B ex_observed_X ex_sm) = None
   \<and> map_option Seq (recorded ex_env ref_B ''@X.ed25519'' (snd (Fill_2 ex_env ref_B ex_observed_X ex_sm)))
       = Some 0"
proof -
  have up: "fmlookup ex_patch3 ''@X.ed25519'' = Some (mkNote 3 True True)"
    by (simp add: ex_defs2 ex_observed_X_def)
  have lo: "last_observed ex_env ex_observed_X ''@X.ed25519''
              = Some \<lparr>Seq = 0, Replicate = True, Receive = True, Feed = ref_X\<rparr>"
    by (simp add: last_observed_def ex_defs2 ex_observed_X_def)
  have rp: "Replicate \<lparr>Seq = 0, Replicate = True, Receive = True, Feed = ref_X\<rparr>"
    by simp
  have before: "map_option Seq (recorded ex_env ref_B ''@X.ed25519'' ex_sm) = Some 1"
    by (simp add: recorded_def ex_defs2 ex_observed_X_def)
  have f1: "fst (Update_2 ex_env ref_B ex_patch3 ex_sm) = Inr 1"
    by (simp add: Update_2_def ex_loads)
  from recorded_Seq_last_write_wins [OF ex_loads(4) ex_range_ok_small(1) up lo rp] before f1
  show ?thesis
    by (auto simp: mkNote_def Note.truncate_def)
qed

subsection \<open>Update\<close>

text \<open>
  C4, as stated: \<open>Update\<close> returns the merged frontier as a copy, so that a later write
  to the returned map does not change the cached frontier.  The second listing
  (lines 651-669) returns the cached map itself: after \<open>Update B\<close> the result is map 1,
  which is the map the cache holds for \<open>B\<close>, and storing a note for \<open>C\<close> into the result
  changes what the state matrix records for \<open>B\<close> and \<open>C\<close>.
\<close>

theorem Update_2_returns_cached_map:
  "fst (Update_2 ex_env ref_B ex_patch5 ex_sm) = Inr 1
   \<and> open_cache (snd (Update_2 ex_env ref_B ex_patch5 ex_sm)) (ref_String ex_env ref_B) = Some 1
   \<and> recorded ex_env ref_B ''@C.ed25519'' (snd (Update_2 ex_env ref_B ex_patch5 ex_sm)) = None
   \<and> recorded ex_env ref_B ''@C.ed25519''
        (map_store 1 ''@C.ed25519'' \<lparr>Seq = 8, Replicate = True, Receive = True\<rparr>
           (snd (Update_2 ex_env ref_B ex_patch5 ex_sm)))
       = Some \<lparr>Seq = 8, Replicate = True, Receive = True\<rparr>"
  by (simp add: Update_2_def recorded_def run_defs ex_defs2)

text \<open>
  C4, what both listings do.  When the peer's frontier loads, \<open>Update\<close> records for
  every feed the patch's note where the patch has one and the note from before where
  it has none, and the returned map holds the same entries.  In the first listing
  (lines 252-275) the returned map is a copy: no store into it and no delete from it
  changes what is recorded for any peer.  In the second listing the returned map is
  the one in the cache.
\<close>

theorem Update_overlays_patch:
  assumes "wf_sm sm" and "loadFrontier e who sm = (Inr current, sm1)"
    and "range_ok e update" and "range_ok e (heap sm1 current ++\<^sub>f update)"
  shows "(\<exists>r sm'. Update e who update sm = (Inr r, sm')
            \<and> (\<forall>F. recorded e who F sm' =
                  (case fmlookup update F of Some n \<Rightarrow> Some n | None \<Rightarrow> fmlookup (heap sm1 current) F))
            \<and> (\<forall>F. fmlookup (heap sm' r) F = recorded e who F sm')
            \<and> (\<forall>peer F k v. recorded e peer F (map_store r k v sm') = recorded e peer F sm')
            \<and> (\<forall>peer F k. recorded e peer F (map_delete r k sm') = recorded e peer F sm'))
       \<and> (\<exists>r sm'. Update_2 e who update sm = (Inr r, sm')
            \<and> (\<forall>F. recorded e who F sm' =
                  (case fmlookup update F of Some n \<Rightarrow> Some n | None \<Rightarrow> fmlookup (heap sm1 current) F))
            \<and> (\<forall>F. fmlookup (heap sm' r) F = recorded e who F sm')
            \<and> open_cache sm' (ref_String e who) = Some r)"
proof -
  have ov: "fmlookup (heap sm1 current ++\<^sub>f update) F =
              (case fmlookup update F of Some n \<Rightarrow> Some n | None \<Rightarrow> fmlookup (heap sm1 current) F)" for F
    by (auto simp: fmlookup_dom_iff split: option.splits)
  have l2: "loadFrontier_2 e who sm = (Inr current, sm1)"
    using assms(2) by (simp add: loadFrontier_2_Inr_iff)
  from recorded_after_Update [OF assms] obtain r sm' where
    u: "Update e who update sm = (Inr r, sm')"
    and rec: "\<forall>F. recorded e who F sm' = fmlookup (heap sm1 current ++\<^sub>f update) F"
    and h: "heap sm' r = heap sm1 current ++\<^sub>f update"
    and nc: "\<forall>k. open_cache sm' k \<noteq> Some r"
    by blast
  have frame1: "recorded e peer F (map_store r k v sm') = recorded e peer F sm'" for peer F k v
    using nc by (auto simp: recorded_def split: option.splits)
  have frame2: "recorded e peer F (map_delete r k sm') = recorded e peer F sm'" for peer F k
    using nc by (auto simp: recorded_def split: option.splits)
  have first: "\<exists>r sm'. Update e who update sm = (Inr r, sm')
            \<and> (\<forall>F. recorded e who F sm' =
                  (case fmlookup update F of Some n \<Rightarrow> Some n | None \<Rightarrow> fmlookup (heap sm1 current) F))
            \<and> (\<forall>F. fmlookup (heap sm' r) F = recorded e who F sm')
            \<and> (\<forall>peer F k v. recorded e peer F (map_store r k v sm') = recorded e peer F sm')
            \<and> (\<forall>peer F k. recorded e peer F (map_delete r k sm') = recorded e peer F sm')"
    using u rec h frame1 frame2 ov by (intro exI [of _ r] exI [of _ sm']) simp
  from recorded_after_Update_2 [OF l2 assms(3)] obtain sm2' where
    u2: "Update_2 e who update sm = (Inr current, sm2')"
    and oc2: "open_cache sm2' (ref_String e who) = Some current"
    and rec2: "\<forall>F. recorded e who F sm2' = fmlookup (heap sm1 current ++\<^sub>f update) F"
    by blast
  have same: "fmlookup (heap sm2' current) F = recorded e who F sm2'" for F
    using oc2 by (simp add: recorded_def)
  have second: "\<exists>r sm'. Update_2 e who update sm = (Inr r, sm')
            \<and> (\<forall>F. recorded e who F sm' =
                  (case fmlookup update F of Some n \<Rightarrow> Some n | None \<Rightarrow> fmlookup (heap sm1 current) F))
            \<and> (\<forall>F. fmlookup (heap sm' r) F = recorded e who F sm')
            \<and> open_cache sm' (ref_String e who) = Some r"
    using u2 oc2 rec2 same ov by (intro exI [of _ current] exI [of _ sm2']) simp
  from first second show ?thesis by blast
qed

theorem Update_overlays_patch_witness:
  "fst (Update ex_env ref_B ex_patch5 ex_sm) = Inr 2
   \<and> recorded ex_env ref_B ''@X.ed25519'' (snd (Update ex_env ref_B ex_patch5 ex_sm))
       = Some \<lparr>Seq = 5, Replicate = True, Receive = True\<rparr>
   \<and> recorded ex_env ref_B ''@Y.ed25519'' (snd (Update ex_env ref_B ex_patch5 ex_sm))
       = Some \<lparr>Seq = 6, Replicate = True, Receive = False\<rparr>
   \<and> fmlookup (heap (snd (Update ex_env ref_B ex_patch5 ex_sm)) 2) ''@X.ed25519''
       = Some \<lparr>Seq = 5, Replicate = True, Receive = True\<rparr>
   \<and> recorded ex_env ref_B ''@C.ed25519''
        (map_store 2 ''@C.ed25519'' \<lparr>Seq = 8, Replicate = True, Receive = True\<rparr>
           (snd (Update ex_env ref_B ex_patch5 ex_sm))) = None
   \<and> fst (Update_2 ex_env ref_B ex_patch5 ex_sm) = Inr 1
   \<and> recorded ex_env ref_B ''@X.ed25519'' (snd (Update_2 ex_env ref_B ex_patch5 ex_sm))
       = Some \<lparr>Seq = 5, Replicate = True, Receive = True\<rparr>
   \<and> recorded ex_env ref_B ''@Y.ed25519'' (snd (Update_2 ex_env ref_B ex_patch5 ex_sm))
       = Some \<lparr>Seq = 6, Replicate = True, Receive = False\<rparr>"
proof -
  have r2: "range_ok ex_env (heap ex_sm 1 ++\<^sub>f ex_patch5)"
    unfolding ex_heap by (rule ex_range_ok_small(4))
  have f1: "fst (Update ex_env ref_B ex_patch5 ex_sm) = Inr 2"
    by (simp add: Update_def ex_loads make_frontier_def Let_def) (simp add: ex_sm_def)
  have f2: "fst (Update_2 ex_env ref_B ex_patch5 ex_sm) = Inr 1"
    by (simp add: Update_2_def ex_loads)
  have lk: "fmlookup ex_patch5 ''@X.ed25519'' = Some \<lparr>Seq = 5, Replicate = True, Receive = True\<rparr>"
    "fmlookup ex_patch5 ''@Y.ed25519'' = None" "fmlookup ex_patch5 ''@C.ed25519'' = None"
    "fmlookup (heap ex_sm 1) ''@Y.ed25519'' = Some \<lparr>Seq = 6, Replicate = True, Receive = False\<rparr>"
    "fmlookup (heap ex_sm 1) ''@C.ed25519'' = None"
    by (simp_all add: ex_defs2)
  from Update_overlays_patch [OF ex_wf ex_loads(2) ex_range_ok_small(2) r2] f1 f2 lk
  show ?thesis
    by auto
qed

subsection \<open>Fill\<close>

text \<open>
  C7 (Fill, entry by entry).  When the peer's frontier loads, \<open>Fill\<close> succeeds and what
  is recorded for the peer afterwards is, for every feed: the note of the last element
  of the list that names the feed if that element has \<open>Replicate = true\<close>, no entry if
  it has \<open>Replicate = false\<close>, and the entry from before if no element names the feed.
  This holds in both listings; on the empty list the second listing returns at once
  and changes nothing.
\<close>

theorem Fill_entry_by_entry:
  assumes "loadFrontier e who sm = (Inr nf, sm1)"
  shows "(\<exists>sm'. Fill e who feeds sm = (None, sm')
            \<and> (\<forall>k. recorded e who k sm' = observed_entry e feeds (heap sm1 nf) k))
       \<and> (feeds \<noteq> [] \<longrightarrow>
            (\<exists>sm'. Fill_2 e who feeds sm = (None, sm')
               \<and> (\<forall>k. recorded e who k sm' = observed_entry e feeds (heap sm1 nf) k)))
       \<and> Fill_2 e who [] sm = (None, sm)"
proof -
  have l2: "loadFrontier_2 e who sm = (Inr nf, sm1)"
    using assms by (simp add: loadFrontier_2_Inr_iff)
  show ?thesis
    using recorded_after_Fill [OF assms, of feeds] recorded_after_Fill_2 [OF l2, of feeds]
    by (simp add: Fill_2_def)
qed

theorem Fill_entry_by_entry_witness:
  "fst (Fill ex_env ref_B ex_observed ex_sm) = None
   \<and> recorded ex_env ref_B ''@C.ed25519'' (snd (Fill ex_env ref_B ex_observed ex_sm))
       = Some \<lparr>Seq = 9, Replicate = True, Receive = True\<rparr>
   \<and> recorded ex_env ref_B ''@X.ed25519'' (snd (Fill ex_env ref_B ex_observed ex_sm)) = None
   \<and> recorded ex_env ref_B ''@Y.ed25519'' (snd (Fill ex_env ref_B ex_observed ex_sm))
       = Some \<lparr>Seq = 6, Replicate = True, Receive = False\<rparr>
   \<and> fst (Fill_2 ex_env ref_B ex_observed ex_sm) = None
   \<and> recorded ex_env ref_B ''@C.ed25519'' (snd (Fill_2 ex_env ref_B ex_observed ex_sm))
       = Some \<lparr>Seq = 9, Replicate = True, Receive = True\<rparr>
   \<and> recorded ex_env ref_B ''@X.ed25519'' (snd (Fill_2 ex_env ref_B ex_observed ex_sm)) = None
   \<and> recorded ex_env ref_B ''@Y.ed25519'' (snd (Fill_2 ex_env ref_B ex_observed ex_sm))
       = Some \<lparr>Seq = 6, Replicate = True, Receive = False\<rparr>"
proof -
  have ne: "ex_observed \<noteq> []" by (simp add: ex_observed_def)
  have o: "observed_entry ex_env ex_observed (heap ex_sm 1) ''@C.ed25519''
             = Some \<lparr>Seq = 9, Replicate = True, Receive = True\<rparr>"
    "observed_entry ex_env ex_observed (heap ex_sm 1) ''@X.ed25519'' = None"
    "observed_entry ex_env ex_observed (heap ex_sm 1) ''@Y.ed25519''
             = Some \<lparr>Seq = 6, Replicate = True, Receive = False\<rparr>"
    by (simp_all add: observed_entry_def last_observed_def Note.truncate_def ex_defs2 ex_observed_def)
  from Fill_entry_by_entry [OF ex_loads(2), of ex_observed] ne o
  show ?thesis by auto
qed

subsection \<open>Inspect\<close>

text \<open>
  C9, as stated: for a peer without state file and without cached frontier \<open>Inspect\<close>
  returns an empty frontier and no error, and errors come only from opening or
  decoding.  They come from the file name as well: for the peer \<open>Z\<close>, whose reference
  the file-name encoding rejects, \<open>Inspect\<close> returns that error although no file exists
  and nothing is cached.
\<close>

theorem Inspect_counterexample:
  "open_cache ex_sm (ref_String ex_env ref_Z) = None
   \<and> dom (files ex_sm) = {}
   \<and> fst (Inspect ex_env ref_Z ex_sm) = Inl (OtherError ''unhandled format'')
   \<and> fst (Inspect_2 ex_env ref_Z ex_sm) = Inl (OtherError ''unhandled format'')"
  by (simp add: Inspect_def Inspect_2_def run_defs ex_defs2 ex_sm_corrupt_def)

text \<open>
  C9, amended (load or zero).  For a peer that is not cached, whose file name can be
  built, and whose file the open reports missing, \<open>Inspect\<close> returns a new, empty
  frontier, now cached, and no error, in both listings.  When \<open>Inspect\<close> returns an
  error, the peer was not cached and the error is that of building the file name, or
  that of an open that failed for another reason than a missing file, or that of the
  JSON decoder on the file (as it is in the first listing, wrapped with
  ``state json decode failed'' in the second).
\<close>

theorem Inspect_load_or_zero:
  "(open_cache sm (ref_String e peer) = None \<and> StateFileName e sm peer = Inr name
      \<and> os_Open e sm name = Inl cause \<and> IsNotExist cause
     \<longrightarrow> Inspect e peer sm =
           (Inr (fresh sm),
            sm\<lparr>heap := (heap sm)(fresh sm := fmempty), fresh := Suc (fresh sm),
               open_cache := (open_cache sm)(ref_String e peer \<mapsto> fresh sm)\<rparr>)
         \<and> Inspect_2 e peer sm = Inspect e peer sm)
   \<and> (Inspect e peer sm = (Inl err, sm')
     \<longrightarrow> open_cache sm (ref_String e peer) = None \<and>
         (StateFileName e sm peer = Inl err
          \<or> (\<exists>name. StateFileName e sm peer = Inr name \<and>
                ((os_Open e sm name = Inl err \<and> \<not> IsNotExist err)
                 \<or> (\<exists>content. os_Open e sm name = Inr content \<and> json_Decode e content = Inl err)))))
   \<and> (Inspect_2 e peer sm = (Inl err, sm')
     \<longrightarrow> open_cache sm (ref_String e peer) = None \<and>
         (StateFileName e sm peer = Inl err
          \<or> (\<exists>name. StateFileName e sm peer = Inr name \<and>
                ((os_Open e sm name = Inl err \<and> \<not> IsNotExist err)
                 \<or> (\<exists>content decode_err. os_Open e sm name = Inr content
                       \<and> json_Decode e content = Inl decode_err
                       \<and> err = Wrap decode_err ''state json decode failed'')))))"
proof (intro conjI impI)
  assume a: "open_cache sm (ref_String e peer) = None \<and> StateFileName e sm peer = Inr name
      \<and> os_Open e sm name = Inl cause \<and> IsNotExist cause"
  then show "Inspect e peer sm =
           (Inr (fresh sm),
            sm\<lparr>heap := (heap sm)(fresh sm := fmempty), fresh := Suc (fresh sm),
               open_cache := (open_cache sm)(ref_String e peer \<mapsto> fresh sm)\<rparr>)"
    by (simp add: Inspect_def loadFrontier_def make_frontier_def)
  from a show "Inspect_2 e peer sm = Inspect e peer sm"
    by (simp add: Inspect_def Inspect_2_def loadFrontier_def loadFrontier_2_def make_frontier_def)
next
  assume "Inspect e peer sm = (Inl err, sm')"
  then show "open_cache sm (ref_String e peer) = None"
    by (auto simp: Inspect_def loadFrontier_def split: option.splits)
next
  assume "Inspect e peer sm = (Inl err, sm')"
  then show "StateFileName e sm peer = Inl err
          \<or> (\<exists>name. StateFileName e sm peer = Inr name \<and>
                ((os_Open e sm name = Inl err \<and> \<not> IsNotExist err)
                 \<or> (\<exists>content. os_Open e sm name = Inr content \<and> json_Decode e content = Inl err)))"
    by (auto simp: Inspect_def loadFrontier_def make_frontier_def
        split: option.splits sum.splits prod.splits if_splits)
next
  assume "Inspect_2 e peer sm = (Inl err, sm')"
  then show "open_cache sm (ref_String e peer) = None"
    by (auto simp: Inspect_2_def loadFrontier_2_def split: option.splits)
next
  assume "Inspect_2 e peer sm = (Inl err, sm')"
  then show "StateFileName e sm peer = Inl err
          \<or> (\<exists>name. StateFileName e sm peer = Inr name \<and>
                ((os_Open e sm name = Inl err \<and> \<not> IsNotExist err)
                 \<or> (\<exists>content decode_err. os_Open e sm name = Inr content
                       \<and> json_Decode e content = Inl decode_err
                       \<and> err = Wrap decode_err ''state json decode failed'')))"
    by (auto simp: Inspect_2_def loadFrontier_2_def make_frontier_def
        split: option.splits sum.splits prod.splits if_splits)
qed

theorem Inspect_load_or_zero_witness:
  "fst (Inspect ex_env ref_C ex_sm) = Inr 2
   \<and> heap (snd (Inspect ex_env ref_C ex_sm)) 2 = fmempty
   \<and> open_cache (snd (Inspect ex_env ref_C ex_sm)) (ref_String ex_env ref_C) = Some 2
   \<and> Inspect_2 ex_env ref_C ex_sm = Inspect ex_env ref_C ex_sm
   \<and> os_Open ex_env ex_sm_corrupt ''/ebt/C'' = Inr ''garbage''
   \<and> json_Decode ex_env ''garbage'' = Inl (OtherError ''invalid character'')
   \<and> fst (Inspect ex_env ref_C ex_sm_corrupt) = Inl (OtherError ''invalid character'')
   \<and> fst (Inspect_2 ex_env ref_C ex_sm_corrupt)
       = Inl (Wrap (OtherError ''invalid character'') ''state json decode failed'')"
proof -
  have a: "open_cache ex_sm (ref_String ex_env ref_C) = None"
    "StateFileName ex_env ex_sm ref_C = Inr ''/ebt/C''"
    "os_Open ex_env ex_sm ''/ebt/C'' = Inl ErrNotExist" "IsNotExist ErrNotExist"
    by (simp_all add: run_defs ex_defs2 ex_sm_corrupt_def)
  have f: "fresh ex_sm = 2" by (simp add: ex_sm_def)
  have i1: "Inspect ex_env ref_C ex_sm_corrupt
              = (Inl (OtherError ''invalid character''), snd (make_frontier ex_sm_corrupt))"
    and i2: "Inspect_2 ex_env ref_C ex_sm_corrupt
              = (Inl (Wrap (OtherError ''invalid character'') ''state json decode failed''),
                 snd (make_frontier ex_sm_corrupt))"
    by (simp_all add: Inspect_def Inspect_2_def run_defs ex_defs2 ex_sm_corrupt_def)
  have sf: "StateFileName ex_env ex_sm_corrupt ref_C = Inr ''/ebt/C''"
    by (simp add: run_defs ex_defs2 ex_sm_corrupt_def)
  have first: "Inspect ex_env ref_C ex_sm =
           (Inr (fresh ex_sm),
            ex_sm\<lparr>heap := (heap ex_sm)(fresh ex_sm := fmempty), fresh := Suc (fresh ex_sm),
               open_cache := (open_cache ex_sm)(ref_String ex_env ref_C \<mapsto> fresh ex_sm)\<rparr>)
         \<and> Inspect_2 ex_env ref_C ex_sm = Inspect ex_env ref_C ex_sm"
    using Inspect_load_or_zero [of ex_sm ex_env ref_C "''/ebt/C''" ErrNotExist] a by blast
  have op: "os_Open ex_env ex_sm_corrupt ''/ebt/C'' = Inr ''garbage''"
    by (simp add: run_defs ex_defs2 ex_sm_corrupt_def)
  have second: "\<exists>content. os_Open ex_env ex_sm_corrupt ''/ebt/C'' = Inr content
                  \<and> json_Decode ex_env content = Inl (OtherError ''invalid character'')"
    using Inspect_load_or_zero [of ex_sm_corrupt ex_env ref_C "''/ebt/C''" ErrNotExist
        "OtherError ''invalid character''" "snd (make_frontier ex_sm_corrupt)"] i1 sf op
    by simp
  from first second op i1 i2 f show ?thesis
    by auto
qed

subsection \<open>Saving\<close>

text \<open>
  C10, as stated: for a peer without cached frontier \<open>save\<close> (and \<open>SaveAndClose\<close>) returns
  \<open>nil\<close>.  It returns the error of opening the \<open>.new\<close> file when that fails, and the
  error of building the file name when that fails.
\<close>

theorem save_uncached_counterexample:
  "open_cache ex_sm (ref_String ex_env_readonly ref_C) = None
   \<and> fst (save ex_env_readonly ref_C ex_sm) = Some (OtherError ''permission denied'')
   \<and> fst (SaveAndClose ex_env_readonly ref_C ex_sm) = Some (OtherError ''permission denied'')
   \<and> open_cache ex_sm (ref_String ex_env ref_Z) = None
   \<and> fst (save ex_env ref_Z ex_sm) = Some (OtherError ''unhandled format'')"
  by (simp add: save_def SaveAndClose_def saveAndClose_def run_defs ex_defs2 ex_env_readonly_def)

text \<open>
  C10, amended.  For a peer without cached frontier, \<open>save\<close> returns the error of
  building the file name or of opening the \<open>.new\<close> file if there is one, and nothing has
  changed then; otherwise it returns \<open>nil\<close>, nothing is renamed, and the only change is
  that the \<open>.new\<close> file exists and is empty.  \<open>SaveAndClose\<close> does the same when the
  peer's string form parses back to the peer.  The peer's state file is as before in
  every case.
\<close>

theorem save_uncached:
  assumes "open_cache sm (ref_String e peer) = None"
  shows "save e peer sm =
           (case StateFileName e sm peer of
              Inl err \<Rightarrow> (Some err, sm)
            | Inr name \<Rightarrow>
                (case OpenFile_fault e (name @ ''.new'') of
                   Some err \<Rightarrow> (Some err, sm)
                 | None \<Rightarrow> (None, sm\<lparr>files := (files sm)(name @ ''.new'' \<mapsto> [])\<rparr>)))
         \<and> (ParseFeedRef e (ref_String e peer) = Inr peer
              \<longrightarrow> SaveAndClose e peer sm = save e peer sm)
         \<and> (\<forall>name. StateFileName e sm peer = Inr name
              \<longrightarrow> files (snd (save e peer sm)) name = files sm name)"
proof -
  have s: "save e peer sm =
           (case StateFileName e sm peer of
              Inl err \<Rightarrow> (Some err, sm)
            | Inr name \<Rightarrow>
                (case OpenFile_fault e (name @ ''.new'') of
                   Some err \<Rightarrow> (Some err, sm)
                 | None \<Rightarrow> (None, sm\<lparr>files := (files sm)(name @ ''.new'' \<mapsto> [])\<rparr>)))"
    using assms by (auto simp: save_def os_OpenFile_def Let_def split: sum.splits option.splits)
  have c: "SaveAndClose e peer sm = save e peer sm" if "ParseFeedRef e (ref_String e peer) = Inr peer"
    using assms that
    by (auto simp: SaveAndClose_def saveAndClose_def s fun_upd_idem_iff split: sum.splits option.splits)
  have k: "files (snd (save e peer sm)) name = files sm name" if "StateFileName e sm peer = Inr name" for name
    unfolding s using that by (auto split: option.splits)
  from s c k show ?thesis by blast
qed

theorem save_uncached_witness:
  "save ex_env ref_C ex_sm_corrupt
     = (None, ex_sm_corrupt\<lparr>files := [''/ebt/C'' \<mapsto> ''garbage'', ''/ebt/C.new'' \<mapsto> []]\<rparr>)
   \<and> SaveAndClose ex_env ref_C ex_sm_corrupt = save ex_env ref_C ex_sm_corrupt
   \<and> files (snd (save ex_env ref_C ex_sm_corrupt)) ''/ebt/C'' = Some ''garbage''"
proof -
  have a: "open_cache ex_sm_corrupt (ref_String ex_env ref_C) = None"
    "StateFileName ex_env ex_sm_corrupt ref_C = Inr ''/ebt/C''"
    "OpenFile_fault ex_env ''/ebt/C.new'' = None"
    "ParseFeedRef ex_env (ref_String ex_env ref_C) = Inr ref_C"
    "files ex_sm_corrupt = [''/ebt/C'' \<mapsto> ''garbage'']"
    by (simp_all add: run_defs ex_defs2 ex_sm_corrupt_def)
  from save_uncached [OF a(1)] a(2-5) show ?thesis
    by simp
qed

text \<open>
  A successful \<open>save\<close> of a cached peer leaves the encoding of its frontier in the
  state file and no \<open>.new\<close> file.
\<close>

lemma save_cached_ok:
  assumes c: "open_cache sm (ref_String e peer) = Some nf" and s: "save e peer sm = (None, sm')"
  shows "\<exists>name bytes. StateFileName e sm peer = Inr name \<and> json_Encode e (heap sm nf) = Inr bytes
           \<and> files sm' = ((files sm)(name @ ''.new'' := None))(name \<mapsto> bytes)
           \<and> heap sm' = heap sm \<and> open_cache sm' = open_cache sm \<and> fresh sm' = fresh sm
           \<and> basePath sm' = basePath sm"
proof -
  from s obtain name where n: "StateFileName e sm peer = Inr name"
    by (cases "StateFileName e sm peer") (auto simp: save_def)
  from s n have of: "OpenFile_fault e (name @ ''.new'') = None"
    by (cases "OpenFile_fault e (name @ ''.new'')") (auto simp: save_def os_OpenFile_def)
  define sm1 where "sm1 = sm\<lparr>files := (files sm)(name @ ''.new'' \<mapsto> [])\<rparr>"
  have o: "os_OpenFile e (name @ ''.new'') sm = Inr sm1"
    by (simp add: os_OpenFile_def of sm1_def)
  have c1: "open_cache sm1 (ref_String e peer) = Some nf" and h1: "heap sm1 = heap sm"
    using c by (simp_all add: sm1_def)
  from s obtain bytes where b: "json_Encode e (heap sm nf) = Inr bytes"
    by (cases "json_Encode e (heap sm nf)") (auto simp: save_def n o c1 h1)
  from s have wf: "Write_fault e (name @ ''.new'') bytes = None"
    by (cases "Write_fault e (name @ ''.new'') bytes")
       (auto simp: save_def n o c1 h1 b os_Write_def)
  define sm2 where "sm2 = sm1\<lparr>files := (files sm1)(name @ ''.new'' \<mapsto> bytes)\<rparr>"
  have w: "os_Write e (name @ ''.new'') bytes sm1 = (None, sm2)"
    by (simp add: os_Write_def wf sm2_def)
  from s have cf: "Close_fault e (name @ ''.new'') = None"
    by (cases "Close_fault e (name @ ''.new'')") (auto simp: save_def n o c1 h1 b w)
  from s have rf: "Rename_fault e (name @ ''.new'') name = None"
    by (cases "Rename_fault e (name @ ''.new'') name")
       (auto simp: save_def n o c1 h1 b w cf os_Rename_def)
  have f2: "files sm2 (name @ ''.new'') = Some bytes"
    by (simp add: sm2_def)
  have r: "os_Rename e (name @ ''.new'') name sm2 =
             Inr (sm2\<lparr>files := ((files sm2)(name @ ''.new'' := None))(name \<mapsto> bytes)\<rparr>)"
    by (simp add: os_Rename_def rf f2)
  have res: "sm' = sm2\<lparr>files := ((files sm2)(name @ ''.new'' := None))(name \<mapsto> bytes)\<rparr>"
    using s by (simp add: save_def n o c1 h1 b w cf r)
  have "files sm' = ((files sm)(name @ ''.new'' := None))(name \<mapsto> bytes)"
    by (simp add: res sm2_def sm1_def)
  moreover have "heap sm' = heap sm \<and> open_cache sm' = open_cache sm \<and> fresh sm' = fresh sm
           \<and> basePath sm' = basePath sm"
    by (simp add: res sm2_def sm1_def)
  ultimately show ?thesis using n b by blast
qed

text \<open>
  C6 (round trip through the file).  The peer's frontier is cached and valid, and
  \<open>save\<close> succeeds.  In any later state with the same files and base path in which the
  peer is not cached (after \<open>SaveAndClose\<close>, or in a new state matrix on the same
  directory), and with no fault in opening the file, \<open>loadFrontier\<close> succeeds and the
  frontier it decodes equals the one saved.  While the peer is still cached,
  \<open>loadFrontier\<close> answers from the cache, which \<open>save\<close> has not changed.
\<close>

theorem save_then_loadFrontier:
  assumes "open_cache sm (ref_String e peer) = Some nf"
    and "valid_frontier e (heap sm nf)"
    and "save e peer sm = (None, sm1)"
    and "files sm2 = files sm1" and "basePath sm2 = basePath sm1"
    and "open_cache sm2 (ref_String e peer) = None"
    and "StateFileName e sm peer = Inr name" and "Open_fault e name = None"
  shows "(\<exists>r sm3. loadFrontier_2 e peer sm2 = (Inr r, sm3) \<and> heap sm3 r = heap sm nf
            \<and> open_cache sm3 (ref_String e peer) = Some r)
       \<and> loadFrontier_2 e peer sm1 = (Inr nf, sm1) \<and> heap sm1 nf = heap sm nf"
proof -
  from save_cached_ok [OF assms(1,3)] assms(7) obtain bytes where
    b: "json_Encode e (heap sm nf) = Inr bytes"
    and f: "files sm1 = ((files sm)(name @ ''.new'' := None))(name \<mapsto> bytes)"
    and bp: "basePath sm1 = basePath sm"
    and hp: "heap sm1 = heap sm" and oc: "open_cache sm1 = open_cache sm"
    by auto
  have d: "json_Decode e bytes = Inr (heap sm nf)"
    using assms(2) b by (simp add: valid_frontier_def)
  have "basePath sm2 = basePath sm"
    using assms(5) bp by simp
  then have n2: "StateFileName e sm2 peer = Inr name"
    using assms(7) by (auto simp: StateFileName_def split: sum.splits)
  have o: "os_Open e sm2 name = Inr bytes"
    using assms(4,8) f by (simp add: os_Open_def)
  have later: "\<exists>r sm3. loadFrontier_2 e peer sm2 = (Inr r, sm3) \<and> heap sm3 r = heap sm nf
            \<and> open_cache sm3 (ref_String e peer) = Some r"
    using assms(6) n2 o d by (simp add: loadFrontier_2_def make_frontier_def)
  have cached: "loadFrontier_2 e peer sm1 = (Inr nf, sm1)"
    using assms(1) oc by (simp add: loadFrontier_2_def)
  from later cached hp show ?thesis by simp
qed

theorem save_then_loadFrontier_witness:
  "recorded ex_env ref_Y ''@X.ed25519'' ex_sm_saved = Some \<lparr>Seq = 5, Replicate = True, Receive = True\<rparr>
   \<and> fst (SaveAndClose ex_env ref_Y ex_sm_saved) = None
   \<and> files (snd (SaveAndClose ex_env ref_Y ex_sm_saved)) ''/ebt/Y''
       = Some ''{@X.ed25519:{seq:5,replicate:true,receive:true}}''
   \<and> open_cache (snd (SaveAndClose ex_env ref_Y ex_sm_saved)) (ref_String ex_env ref_Y) = None
   \<and> fst (loadFrontier_2 ex_env ref_Y (snd (SaveAndClose ex_env ref_Y ex_sm_saved))) = Inr 3
   \<and> heap (snd (loadFrontier_2 ex_env ref_Y (snd (SaveAndClose ex_env ref_Y ex_sm_saved)))) 3
       = heap ex_sm_saved 2"
proof -
  define sm1 where "sm1 = ex_sm_saved\<lparr>files := [''/ebt/Y'' \<mapsto> ''{@X.ed25519:{seq:5,replicate:true,receive:true}}'']\<rparr>"
  define sm2 where "sm2 = sm1\<lparr>open_cache := (open_cache sm1)(''@Y.ed25519'' := None)\<rparr>"
  have c: "open_cache ex_sm_saved (ref_String ex_env ref_Y) = Some 2"
    and h: "heap ex_sm_saved 2 = ex_patch5"
    and n: "StateFileName ex_env ex_sm_saved ref_Y = Inr ''/ebt/Y''"
    and nf: "Open_fault ex_env ''/ebt/Y'' = None"
    by (simp_all add: run_defs ex_defs2 ex_sm_saved_def)
  have v: "valid_frontier ex_env (heap ex_sm_saved 2)"
    unfolding h by (simp add: valid_frontier_def ex_env_def)
  have s: "save ex_env ref_Y ex_sm_saved = (None, sm1)"
    unfolding sm1_def
    by (simp add: save_def run_defs ex_defs2 ex_sm_saved_def Let_def)
  have sc: "SaveAndClose ex_env ref_Y ex_sm_saved = (None, sm2)"
    unfolding SaveAndClose_def saveAndClose_def sm2_def
    by (simp add: ex_env_def ex_Parse_def ex_String_def ref_A_def ref_B_def ref_C_def ref_X_def ref_Y_def)
       (simp add: s [unfolded ex_env_def ref_Y_def, simplified] ex_env_def ref_Y_def ex_String_def)
  have a: "files sm2 = files sm1" "basePath sm2 = basePath sm1"
    "open_cache sm2 (ref_String ex_env ref_Y) = None"
    by (simp_all add: sm2_def ex_defs2 ex_sm_saved_def)
  have fr: "fresh sm2 = 3" by (simp add: sm2_def sm1_def ex_defs2 ex_sm_saved_def)
  have l: "fst (loadFrontier_2 ex_env ref_Y sm2) = Inr 3"
    using a(3) by (simp add: loadFrontier_2_def run_defs fr sm2_def sm1_def ex_defs2 ex_sm_saved_def)
  have before: "recorded ex_env ref_Y ''@X.ed25519'' ex_sm_saved = Some \<lparr>Seq = 5, Replicate = True, Receive = True\<rparr>"
    by (simp add: recorded_def ex_defs2 ex_sm_saved_def)
  have fl: "files sm2 ''/ebt/Y'' = Some ''{@X.ed25519:{seq:5,replicate:true,receive:true}}''"
    by (simp add: sm2_def sm1_def)
  from save_then_loadFrontier [OF c v s a n nf] l before fl a(3)
  show ?thesis
    unfolding sc by auto
qed

end
